theory Spec2Isabelle
  imports Main "HOL-Library.Word"
begin

section \<open>Kinds and descriptors\<close>

text \<open>
  \<^verbatim>\<open>number.Kind\<close> (package number): \<^verbatim>\<open>Int64Kind Kind = iota\<close>, \<^verbatim>\<open>Float64Kind\<close>.
\<close>

datatype number_Kind = Int64Kind | Float64Kind

text \<open>
  Modelled from the spec: the instrument kinds of package sdkinstrument (sdkapi in
  viewstate.go) are not among the sources; only the three observer kinds are named, in
  asyncinst.go. Spec section 3: \<open>instrument_kind\<close> is one of Counter, UpDownCounter,
  Histogram, CounterObserver, UpDownCounterObserver, GaugeObserver; a descriptor is
  synchronous iff its kind is one of the first three, and has temporality iff it is
  not a gauge.
\<close>

datatype sdkinstrument_Kind =
    CounterKind
  | UpDownCounterKind
  | HistogramInstrumentKind
  | CounterObserverKind
  | UpDownCounterObserverKind
  | GaugeObserverKind

fun Synchronous :: "sdkinstrument_Kind \<Rightarrow> bool" where
  "Synchronous CounterKind = True"
| "Synchronous UpDownCounterKind = True"
| "Synchronous HistogramInstrumentKind = True"
| "Synchronous CounterObserverKind = False"
| "Synchronous UpDownCounterObserverKind = False"
| "Synchronous GaugeObserverKind = False"

fun HasTemporality :: "sdkinstrument_Kind \<Rightarrow> bool" where
  "HasTemporality GaugeObserverKind = False"
| "HasTemporality k = True"

text \<open>
  Modelled from the spec: package aggregation is not among the sources. The compiler
  names \<^verbatim>\<open>SumKind\<close>, \<^verbatim>\<open>LastValueKind\<close>, \<^verbatim>\<open>HistogramKind\<close> and \<^verbatim>\<open>DropKind\<close>; every other
  value (the spec's Default) takes the \<^verbatim>\<open>default\<close> branch of its switch.
\<close>

datatype aggregation_Kind = UndefinedKind | DropKind | SumKind | LastValueKind | HistogramKind

datatype aggregation_Temporality = CumulativeTemporality | DeltaTemporality

text \<open>
  \<^verbatim>\<open>sdkapi.Descriptor\<close>: immutable, built by
  \<^verbatim>\<open>NewDescriptor(name, ikind, nkind, description, unit)\<close> and read through its accessors.
\<close>

record Descriptor =
  Name :: string
  InstrumentKind :: sdkinstrument_Kind
  NumberKind :: number_Kind
  Description :: string
  Unit :: string

definition NewDescriptor ::
  "string \<Rightarrow> sdkinstrument_Kind \<Rightarrow> number_Kind \<Rightarrow> string \<Rightarrow> string \<Rightarrow> Descriptor" where
  "NewDescriptor name ikind nkind description unit =
     \<lparr>Name = name, InstrumentKind = ikind, NumberKind = nkind,
      Description = description, Unit = unit\<rparr>"

record instrumentation_Library =
  LibraryName :: string
  Version :: string
  SchemaURL :: string

section \<open>Panics and handled errors\<close>

text \<open>
  A Go panic is a result of its own. \<open>NilDereference\<close> is a method call on a nil
  interface or a field access through a nil pointer, \<open>IndexOutOfRange\<close> an index past
  the end of a slice. An \<open>error\<close> is the message of an error value given to
  \<^verbatim>\<open>otel.Handle\<close>.
\<close>

datatype panic = NilDereference | IndexOutOfRange

type_synonym error = string

section \<open>Views and readers\<close>

typedecl histogram_Option

text \<open>
  \<^verbatim>\<open>attribute.KeyValue\<close> and \<^verbatim>\<open>attribute.Filter\<close> (a predicate on key-values; \<open>None\<close> is
  the nil filter).
\<close>

type_synonym attribute_KeyValue = "string \<times> string"

type_synonym attribute_Filter = "(attribute_KeyValue \<Rightarrow> bool) option"

text \<open>
  \<^verbatim>\<open>views.View\<close> is not among the sources; the compiler reads it only through these
  methods, so a view is the record of what they return.
\<close>

record views_View =
  Matches :: "instrumentation_Library \<Rightarrow> Descriptor \<Rightarrow> bool"
  ViewAggregation :: aggregation_Kind
  HasName :: bool
  ViewName :: string
  ViewDescription :: string
  Keys :: attribute_Filter
  HistogramOptions :: "histogram_Option list"

text \<open>
  \<^verbatim>\<open>*reader.Reader\<close>: a pointer, compared by address, and the \<^verbatim>\<open>Defaults()\<close> function
  of the reader it points to.
\<close>

record reader_Reader =
  ReaderAddr :: nat
  Defaults :: "sdkinstrument_Kind \<Rightarrow> aggregation_Kind \<times> aggregation_Temporality"

subsection \<open>viewDescriptor\<close>

text \<open>
  \<^verbatim>\<open>
  func viewDescriptor(instrument sdkapi.Descriptor, v views.View) sdkapi.Descriptor {
      ikind := instrument.InstrumentKind()
      nkind := instrument.NumberKind()
      name := instrument.Name()
      description := instrument.Description()
      unit := instrument.Unit()
      if v.HasName() {
          name = v.Name()
      }
      if v.Description() != "" {
          description = instrument.Description()
      }
      return sdkapi.NewDescriptor(name, ikind, nkind, description, unit)
  }
  \<close>
\<close>

definition viewDescriptor :: "Descriptor \<Rightarrow> views_View \<Rightarrow> Descriptor" where
  "viewDescriptor instrument v =
     (let ikind = InstrumentKind instrument;
          nkind = NumberKind instrument;
          name = Name instrument;
          description = Description instrument;
          unit = Unit instrument;
          name = (if HasName v then ViewName v else name);
          description = (if ViewDescription v \<noteq> '''' then Description instrument else description)
      in NewDescriptor name ikind nkind description unit)"

section \<open>Aggregator kernels and storage\<close>

text \<open>
  \<^verbatim>\<open>histogram.NewConfig\<close>, \<^verbatim>\<open>histogram.Int64Defaults\<close> and \<^verbatim>\<open>histogram.Float64Defaults\<close> are
  not among the sources: the configuration the compiler builds is kept as the term it
  was built from. \<open>ZeroConfig\<close> is the zero value of \<^verbatim>\<open>var acfg aggregator.Config\<close>.
\<close>

datatype histogram_Defaults = Int64Defaults | Float64Defaults

datatype histogram_Config = ZeroConfig | NewConfig histogram_Defaults "histogram_Option list"

record aggregator_Config =
  Histogram :: histogram_Config

text \<open>
  \<^verbatim>\<open>aggregator.Methods[N, Storage]\<close>, the table of kernel operations every pipeline is
  generic in. The kernels (sum, lastvalue, histogram) are not among the sources, so the
  table is a parameter of every function below. An operation that takes two
  \<^verbatim>\<open>*Storage\<close> arguments returns the new contents of both, in the order of its
  arguments: which of the two it writes is the kernel's business, not the caller's.
  \<^verbatim>\<open>Init(ptr, cfg)\<close> is only ever called on zero storage and gives its contents.
\<close>

record ('n, 's) Methods =
  Init :: "aggregator_Config \<Rightarrow> 's"
  Update :: "'s \<Rightarrow> 'n \<Rightarrow> 's"
  SynchronizedMove :: "'s \<Rightarrow> 's \<Rightarrow> 's \<times> 's"
  Merge :: "'s \<Rightarrow> 's \<Rightarrow> 's \<times> 's"
  Reset :: "'s \<Rightarrow> 's"
  SubtractSwap :: "'s \<Rightarrow> 's \<Rightarrow> 's \<times> 's"
  HasData :: "'s \<Rightarrow> bool"

text \<open>
  The store of \<^verbatim>\<open>Storage\<close> objects that pipelines, accumulators and emitted series share
  by pointer: the contents of every address, and the next address \<^verbatim>\<open>new(Storage)\<close>
  hands out.
\<close>

type_synonym addr = nat

record 's heap =
  cell :: "addr \<Rightarrow> 's"
  nextAddr :: addr

definition alloc :: "'s \<Rightarrow> 's heap \<Rightarrow> addr \<times> 's heap" where
  "alloc v h = (nextAddr h, \<lparr>cell = (cell h)(nextAddr h := v), nextAddr = Suc (nextAddr h)\<rparr>)"

text \<open>
  A kernel operation applied to one or two storage pointers: the contents are read,
  the operation runs, and what it returns is written back. Were both pointers the same
  address the second write would stand; no pipeline passes the same storage twice.
\<close>

definition call1 :: "('s \<Rightarrow> 's) \<Rightarrow> addr \<Rightarrow> 's heap \<Rightarrow> 's heap" where
  "call1 f a h = h\<lparr>cell := (cell h)(a := f (cell h a))\<rparr>"

definition call2 :: "('s \<Rightarrow> 's \<Rightarrow> 's \<times> 's) \<Rightarrow> addr \<Rightarrow> addr \<Rightarrow> 's heap \<Rightarrow> 's heap" where
  "call2 f a b h =
     (let r = f (cell h a) (cell h b) in h\<lparr>cell := (cell h)(a := fst r, b := snd r)\<rparr>)"

text \<open>
  \<^verbatim>\<open>configuredBehavior\<close>, what the compiler derives from one matching view for one
  reader.
\<close>

record configuredBehavior =
  desc :: Descriptor
  kind :: aggregation_Kind
  keys :: attribute_Filter
  acfg :: aggregator_Config
  reader :: reader_Reader

section \<open>Pipelines (package viewstate)\<close>

text \<open>
  \<^verbatim>\<open>baseMetric\<close>: \<^verbatim>\<open>data map[attribute.Set]*Storage\<close> is a map from attribute sets to
  addresses. The mutex is left out: the model is sequential, every method runs to its
  end before the next starts.
\<close>

record 'k baseMetric =
  desc :: Descriptor
  acfg :: aggregator_Config
  data :: "'k \<rightharpoonup> addr"
  keys :: attribute_Filter

text \<open>\<^verbatim>\<open>statefulAsyncProcess\<close> adds \<^verbatim>\<open>prior map[attribute.Set]*Storage\<close>.\<close>

record 'k statefulAsyncProcess = "'k baseMetric" +
  prior :: "'k \<rightharpoonup> addr"

text \<open>
  \<^verbatim>\<open>
  func (metric *baseMetric[N, Storage, Methods]) newStorage() *Storage {
      ns := new(Storage)
      metric.initStorage(ns)
      return ns
  }
  \<close>
\<close>

definition newStorage ::
  "('n, 's) Methods \<Rightarrow> ('k, 'z) baseMetric_scheme \<Rightarrow> 's heap \<Rightarrow> addr \<times> 's heap" where
  "newStorage methods metric h = alloc (Init methods (acfg metric)) h"

text \<open>
  \<^verbatim>\<open>
  func (metric *baseMetric[N, Storage, Methods]) findOutput(kvs []attribute.KeyValue) *Storage {
      set, _ := attribute.NewSetWithFiltered(kvs, metric.keys)
      storage, has := metric.data[set]
      if has {
          return storage
      }
      ns := metric.newStorage()
      metric.data[set] = ns
      return ns
  }
  \<close>
  \<^verbatim>\<open>attribute.NewSetWithFiltered\<close> is not among the sources and is a parameter.
\<close>

definition findOutput ::
  "('n, 's) Methods \<Rightarrow> (attribute_KeyValue list \<Rightarrow> attribute_Filter \<Rightarrow> 'k) \<Rightarrow>
   ('k, 'z) baseMetric_scheme \<Rightarrow> attribute_KeyValue list \<Rightarrow> 's heap \<Rightarrow>
   addr \<times> ('k, 'z) baseMetric_scheme \<times> 's heap" where
  "findOutput methods NewSetWithFiltered metric kvs h =
     (let set = NewSetWithFiltered kvs (keys metric) in
      case data metric set of
        Some storage \<Rightarrow> (storage, metric, h)
      | None \<Rightarrow>
          (let (ns, h') = newStorage methods metric h
           in (ns, metric\<lparr>data := (data metric)(set \<mapsto> ns)\<rparr>, h')))"

subsection \<open>Accumulators\<close>

text \<open>
  \<^verbatim>\<open>syncAccumulator\<close>: \<^verbatim>\<open>current\<close> and \<^verbatim>\<open>snapshot\<close> are storage held in the accumulator
  itself, \<^verbatim>\<open>output\<close> points into the pipeline's \<^verbatim>\<open>data\<close>.
\<close>

record 's syncAccumulator =
  current :: 's
  snapshot :: 's
  "output" :: addr

definition syncAccumulator_Update ::
  "('n, 's) Methods \<Rightarrow> 's syncAccumulator \<Rightarrow> 'n \<Rightarrow> 's syncAccumulator" where
  "syncAccumulator_Update methods sc number =
     sc\<lparr>syncAccumulator.current := Update methods (syncAccumulator.current sc) number\<rparr>"

text \<open>
  \<^verbatim>\<open>
  func (sc *syncAccumulator[N, Storage, Methods]) Accumulate() {
      methods.SynchronizedMove(&sc.current, &sc.snapshot)
      methods.Merge(&sc.snapshot, sc.output)
  }
  \<close>
\<close>

definition syncAccumulator_Accumulate ::
  "('n, 's) Methods \<Rightarrow> 's syncAccumulator \<Rightarrow> 's heap \<Rightarrow> 's syncAccumulator \<times> 's heap" where
  "syncAccumulator_Accumulate methods sc h =
     (let moved = SynchronizedMove methods (syncAccumulator.current sc)
                    (syncAccumulator.snapshot sc);
          merged = Merge methods (snd moved) (cell h (syncAccumulator.output sc))
      in (sc\<lparr>syncAccumulator.current := fst moved, syncAccumulator.snapshot := fst merged\<rparr>,
          h\<lparr>cell := (cell h)(syncAccumulator.output sc := snd merged)\<rparr>))"

text \<open>\<^verbatim>\<open>asyncAccumulator\<close>: \<^verbatim>\<open>current\<close> is the last observed number, not storage.\<close>

record ('n, 's) asyncAccumulator =
  current :: 'n
  snapshot :: 's
  "output" :: addr

definition asyncAccumulator_Update ::
  "('n, 's) asyncAccumulator \<Rightarrow> 'n \<Rightarrow> ('n, 's) asyncAccumulator" where
  "asyncAccumulator_Update ac number = ac\<lparr>asyncAccumulator.current := number\<rparr>"

text \<open>
  \<^verbatim>\<open>
  func (ac *asyncAccumulator[N, Storage, Methods]) Accumulate() {
      methods.Reset(&ac.snapshot)
      methods.Update(&ac.snapshot, ac.current)
      methods.Merge(&ac.snapshot, ac.output)
  }
  \<close>
\<close>

definition asyncAccumulator_Accumulate ::
  "('n, 's) Methods \<Rightarrow> ('n, 's) asyncAccumulator \<Rightarrow> 's heap \<Rightarrow>
   ('n, 's) asyncAccumulator \<times> 's heap" where
  "asyncAccumulator_Accumulate methods ac h =
     (let reset = Reset methods (asyncAccumulator.snapshot ac);
          updated = Update methods reset (asyncAccumulator.current ac);
          merged = Merge methods updated (cell h (asyncAccumulator.output ac))
      in (ac\<lparr>asyncAccumulator.snapshot := fst merged\<rparr>,
          h\<lparr>cell := (cell h)(asyncAccumulator.output ac := snd merged)\<rparr>))"

text \<open>
  \<^verbatim>\<open>
  func (csv *compiledSyncInstrument[...]) NewAccumulator(kvs []attribute.KeyValue, _ *reader.Reader) Accumulator {
      sc := &syncAccumulator[N, Storage, Methods]{}
      csv.initStorage(&sc.current)
      csv.initStorage(&sc.snapshot)
      sc.output = csv.findOutput(kvs)
      return sc
  }
  \<close>
\<close>

definition compiledSyncInstrument_NewAccumulator ::
  "('n, 's) Methods \<Rightarrow> (attribute_KeyValue list \<Rightarrow> attribute_Filter \<Rightarrow> 'k) \<Rightarrow>
   ('k, 'z) baseMetric_scheme \<Rightarrow> attribute_KeyValue list \<Rightarrow> 's heap \<Rightarrow>
   's syncAccumulator \<times> ('k, 'z) baseMetric_scheme \<times> 's heap" where
  "compiledSyncInstrument_NewAccumulator methods NewSetWithFiltered csv kvs h =
     (let (out, csv', h') = findOutput methods NewSetWithFiltered csv kvs h
      in (\<lparr>syncAccumulator.current = Init methods (acfg csv),
           snapshot = Init methods (acfg csv), output = out\<rparr>,
          csv', h'))"

text \<open>
  \<^verbatim>\<open>
  func (cav *compiledAsyncInstrument[...]) NewAccumulator(kvs []attribute.KeyValue, _ *reader.Reader) Accumulator {
      ac := &asyncAccumulator[N, Storage, Methods]{}
      cav.initStorage(&ac.snapshot)
      ac.current = 0
      ac.output = cav.findOutput(kvs)
      return ac
  }
  \<close>
\<close>

definition compiledAsyncInstrument_NewAccumulator ::
  "('n::zero, 's) Methods \<Rightarrow> (attribute_KeyValue list \<Rightarrow> attribute_Filter \<Rightarrow> 'k) \<Rightarrow>
   ('k, 'z) baseMetric_scheme \<Rightarrow> attribute_KeyValue list \<Rightarrow> 's heap \<Rightarrow>
   ('n, 's) asyncAccumulator \<times> ('k, 'z) baseMetric_scheme \<times> 's heap" where
  "compiledAsyncInstrument_NewAccumulator methods NewSetWithFiltered cav kvs h =
     (let (out, cav', h') = findOutput methods NewSetWithFiltered cav kvs h
      in (\<lparr>asyncAccumulator.current = 0, snapshot = Init methods (acfg cav), output = out\<rparr>,
          cav', h'))"

subsection \<open>Reader output\<close>

type_synonym time = nat

record reader_Sequence =
  Start :: time
  Last :: time
  Now :: time

text \<open>
  \<^verbatim>\<open>reader.Series\<close>. \<^verbatim>\<open>methods.Aggregation(storage)\<close> borrows the storage it is given, so a
  series holds the address of the storage it reports; its value is read through the
  store.
\<close>

record 'k reader_Series =
  Attributes :: 'k
  Aggregation :: addr
  StartTime :: time
  EndTime :: time

record 'k reader_Instrument =
  Instrument :: Descriptor
  Temporality :: aggregation_Temporality
  Series :: "'k reader_Series list"

text \<open>
  \<^verbatim>\<open>ioutput := &(*output)[len(*output)-1]\<close> followed by
  \<^verbatim>\<open>ioutput.Series = append(ioutput.Series, s)\<close>: the series is appended to the last
  instrument of the output, which every \<^verbatim>\<open>Collect\<close> has just appended.
\<close>

definition appendSeries ::
  "'k reader_Instrument list \<Rightarrow> 'k reader_Series \<Rightarrow> 'k reader_Instrument list" where
  "appendSeries out s = butlast out @ [(last out)\<lparr>Series := Series (last out) @ [s]\<rparr>]"

subsection \<open>Collect\<close>

text \<open>
  Go visits the keys of a map in an order it does not specify. Every \<^verbatim>\<open>Collect\<close> below
  takes that order as its argument \<open>order\<close>: the keys of \<^verbatim>\<open>p.data\<close> as the
  \<^verbatim>\<open>range\<close> statement of this call produces them. An entry deleted before it is
  reached is not produced, so each step looks its key up in the map as it is then.
\<close>

text \<open>
  \<^verbatim>\<open>
  // Collect for Synchronous Delta->Cumulative
  func (p *statefulSyncProcess[...]) Collect(_ *reader.Reader, seq reader.Sequence, output *[]reader.Instrument) {
      *output = append(*output, reader.Instrument{Instrument: p.desc, Temporality: aggregation.CumulativeTemporality})
      ioutput := &(*output)[len(*output)-1]
      for set, storage := range p.data {
          // Note: No reset in this process.
          ioutput.Series = append(ioutput.Series, reader.Series{
              Attributes: set, Aggregation: methods.Aggregation(storage), Start: seq.Last, End: seq.Now})
      }
  }
  \<close>
\<close>

fun statefulSync_range ::
  "reader_Sequence \<Rightarrow> 'k list \<Rightarrow> 'k baseMetric \<Rightarrow> 'k reader_Instrument list \<Rightarrow>
   'k reader_Instrument list" where
  "statefulSync_range seq [] p out = out"
| "statefulSync_range seq (set' # rest) p out =
     (case data p set' of
        None \<Rightarrow> statefulSync_range seq rest p out
      | Some storage \<Rightarrow>
          statefulSync_range seq rest p
            (appendSeries out
               \<lparr>Attributes = set', Aggregation = storage, StartTime = Last seq, EndTime = Now seq\<rparr>))"

definition statefulSyncProcess_Collect ::
  "'k list \<Rightarrow> 'k baseMetric \<Rightarrow> reader_Sequence \<Rightarrow> 'k reader_Instrument list \<Rightarrow>
   'k reader_Instrument list" where
  "statefulSyncProcess_Collect order p seq out =
     statefulSync_range seq order p
       (out @ [\<lparr>Instrument = desc p, Temporality = CumulativeTemporality, Series = []\<rparr>])"

text \<open>
  \<^verbatim>\<open>
  // Collect for Synchronous Delta->Delta
  func (p *statelessSyncProcess[...]) Collect(_ *reader.Reader, seq reader.Sequence, output *[]reader.Instrument) {
      *output = append(*output, reader.Instrument{Instrument: p.desc, Temporality: aggregation.DeltaTemporality})
      ioutput := &(*output)[len(*output)-1]
      for set, storage := range p.data {
          if !methods.HasData(storage) {
              delete(p.data, set)
              continue
          }
          // Copy and reset the underlying storage.
          // Note: this could be re-used memory from the last collection.
          ns := p.newStorage()
          methods.Merge(ns, storage)
          methods.Reset(storage)
          ioutput.Series = append(ioutput.Series, reader.Series{
              Attributes: set, Aggregation: methods.Aggregation(ns), Start: seq.Last, End: seq.Now})
      }
  }
  \<close>
\<close>

fun statelessSync_range ::
  "('n, 's) Methods \<Rightarrow> reader_Sequence \<Rightarrow> 'k list \<Rightarrow>
   'k baseMetric \<times> 'k reader_Instrument list \<times> 's heap \<Rightarrow>
   'k baseMetric \<times> 'k reader_Instrument list \<times> 's heap" where
  "statelessSync_range methods seq [] st = st"
| "statelessSync_range methods seq (set' # rest) (p, out, h) =
     (case data p set' of
        None \<Rightarrow> statelessSync_range methods seq rest (p, out, h)
      | Some storage \<Rightarrow>
          if \<not> HasData methods (cell h storage)
          then statelessSync_range methods seq rest (p\<lparr>data := (data p)(set' := None)\<rparr>, out, h)
          else
            (let a = newStorage methods p h;
                 ns = fst a;
                 h1 = call2 (Merge methods) ns storage (snd a);
                 h2 = call1 (Reset methods) storage h1
             in statelessSync_range methods seq rest
                  (p,
                   appendSeries out
                     \<lparr>Attributes = set', Aggregation = ns, StartTime = Last seq, EndTime = Now seq\<rparr>,
                   h2)))"

definition statelessSyncProcess_Collect ::
  "('n, 's) Methods \<Rightarrow> 'k list \<Rightarrow> 'k baseMetric \<Rightarrow> reader_Sequence \<Rightarrow>
   'k reader_Instrument list \<Rightarrow> 's heap \<Rightarrow>
   'k baseMetric \<times> 'k reader_Instrument list \<times> 's heap" where
  "statelessSyncProcess_Collect methods order p seq out h =
     statelessSync_range methods seq order
       (p, out @ [\<lparr>Instrument = desc p, Temporality = DeltaTemporality, Series = []\<rparr>], h)"

text \<open>
  \<^verbatim>\<open>
  // Collect for Asychronous Cumulative->Cumulative
  func (p *statelessAsyncProcess[...]) Collect(_ *reader.Reader, seq reader.Sequence, output *[]reader.Instrument) {
      *output = append(*output, reader.Instrument{Instrument: p.desc, Temporality: aggregation.CumulativeTemporality})
      ioutput := &(*output)[len(*output)-1]
      for set, storage := range p.data {
          ioutput.Series = append(ioutput.Series, reader.Series{
              Attributes: set, Aggregation: methods.Aggregation(storage), Start: seq.Start, End: seq.Now})
      }
      // Reset the entire map.
      p.data = map[attribute.Set]*Storage{}
  }
  \<close>
\<close>

fun statelessAsync_range ::
  "reader_Sequence \<Rightarrow> 'k list \<Rightarrow> 'k baseMetric \<Rightarrow> 'k reader_Instrument list \<Rightarrow>
   'k reader_Instrument list" where
  "statelessAsync_range seq [] p out = out"
| "statelessAsync_range seq (set' # rest) p out =
     (case data p set' of
        None \<Rightarrow> statelessAsync_range seq rest p out
      | Some storage \<Rightarrow>
          statelessAsync_range seq rest p
            (appendSeries out
               \<lparr>Attributes = set', Aggregation = storage, StartTime = Start seq, EndTime = Now seq\<rparr>))"

definition statelessAsyncProcess_Collect ::
  "'k list \<Rightarrow> 'k baseMetric \<Rightarrow> reader_Sequence \<Rightarrow> 'k reader_Instrument list \<Rightarrow>
   'k baseMetric \<times> 'k reader_Instrument list" where
  "statelessAsyncProcess_Collect order p seq out =
     (p\<lparr>data := Map.empty\<rparr>,
      statelessAsync_range seq order p
        (out @ [\<lparr>Instrument = desc p, Temporality = CumulativeTemporality, Series = []\<rparr>]))"

text \<open>
  \<^verbatim>\<open>
  // Collect for Asynchronous Cumulative->Delta
  func (p *statefulAsyncProcess[...]) Collect(_ *reader.Reader, seq reader.Sequence, output *[]reader.Instrument) {
      *output = append(*output, reader.Instrument{Instrument: p.desc, Temporality: aggregation.DeltaTemporality})
      ioutput := &(*output)[len(*output)-1]
      for set, storage := range p.data {
          pval, has := p.prior[set]
          if has {
              // This does `*pval := *storage - *pval`
              methods.SubtractSwap(storage, pval)
              // Skip the series if the difference has no data.
              if !methods.HasData(pval) {
                  continue
              }
              // Output the difference except for Gauge, in
              // which case output the new value.
              if p.desc.InstrumentKind().HasTemporality() {
                  storage = pval
              }
          }
          ioutput.Series = append(ioutput.Series, reader.Series{
              Attributes: set, Aggregation: methods.Aggregation(storage), Start: seq.Start, End: seq.Now})
      }
      // Copy the current to the prior and reset.
      p.prior = p.data
      p.data = map[attribute.Set]*Storage{}
  }
  \<close>
\<close>

fun statefulAsync_range ::
  "('n, 's) Methods \<Rightarrow> reader_Sequence \<Rightarrow> 'k statefulAsyncProcess \<Rightarrow> 'k list \<Rightarrow>
   'k reader_Instrument list \<times> 's heap \<Rightarrow> 'k reader_Instrument list \<times> 's heap" where
  "statefulAsync_range methods seq p [] st = st"
| "statefulAsync_range methods seq p (set' # rest) (out, h) =
     (case data p set' of
        None \<Rightarrow> statefulAsync_range methods seq p rest (out, h)
      | Some storage \<Rightarrow>
          (case prior p set' of
             Some pval \<Rightarrow>
               (let h1 = call2 (SubtractSwap methods) storage pval h in
                if \<not> HasData methods (cell h1 pval)
                then statefulAsync_range methods seq p rest (out, h1)
                else
                  (let storage' =
                         (if HasTemporality (InstrumentKind (desc p)) then pval else storage)
                   in statefulAsync_range methods seq p rest
                        (appendSeries out
                           \<lparr>Attributes = set', Aggregation = storage',
                            StartTime = Start seq, EndTime = Now seq\<rparr>,
                         h1)))
           | None \<Rightarrow>
               statefulAsync_range methods seq p rest
                 (appendSeries out
                    \<lparr>Attributes = set', Aggregation = storage,
                     StartTime = Start seq, EndTime = Now seq\<rparr>,
                  h)))"

definition statefulAsyncProcess_Collect ::
  "('n, 's) Methods \<Rightarrow> 'k list \<Rightarrow> 'k statefulAsyncProcess \<Rightarrow> reader_Sequence \<Rightarrow>
   'k reader_Instrument list \<Rightarrow> 's heap \<Rightarrow>
   'k statefulAsyncProcess \<times> 'k reader_Instrument list \<times> 's heap" where
  "statefulAsyncProcess_Collect methods order p seq out h =
     (let r = statefulAsync_range methods seq p order
                (out @ [\<lparr>Instrument = desc p, Temporality = DeltaTemporality, Series = []\<rparr>], h)
      in (p\<lparr>prior := data p, data := Map.empty\<rparr>, fst r, snd r))"

section \<open>The view compiler\<close>

text \<open>
  A compiled \<^verbatim>\<open>viewstate.Instrument\<close>: one of the four pipeline types, tagged with the
  type arguments \<^verbatim>\<open>N\<close> and \<^verbatim>\<open>Storage\<close> it was instantiated at, or a
  \<^verbatim>\<open>multiInstrument[N]\<close>, a \<^verbatim>\<open>map[*reader.Reader][]Instrument\<close> kept as the list of its
  entries, keyed by the reader's address.
\<close>

datatype storage_Kind = sum_State | lastvalue_State | histogram_State

datatype 'k viewstate_Instrument =
    StatelessSyncProcess number_Kind storage_Kind "'k baseMetric"
  | StatefulSyncProcess number_Kind storage_Kind "'k baseMetric"
  | StatelessAsyncProcess number_Kind storage_Kind "'k baseMetric"
  | StatefulAsyncProcess number_Kind storage_Kind "'k statefulAsyncProcess"
  | MultiInstrument number_Kind "(nat \<times> 'k viewstate_Instrument list) list"

text \<open>
  \<^verbatim>\<open>Compiler\<close>: \<^verbatim>\<open>names\<close> is the per-reader set of output names, indexed by the
  reader's position in \<^verbatim>\<open>readers\<close>.
\<close>

record Compiler =
  library :: instrumentation_Library
  views :: "views_View list"
  readers :: "reader_Reader list"
  names :: "string set list"

definition New ::
  "instrumentation_Library \<Rightarrow> views_View list \<Rightarrow> reader_Reader list \<Rightarrow> Compiler" where
  "New lib views' readers' =
     \<lparr>library = lib, views = views', readers = readers',
      names = replicate (length readers') {}\<rparr>"

definition aggregatorConfigFor ::
  "Descriptor \<Rightarrow> (sdkinstrument_Kind \<Rightarrow> aggregation_Kind \<times> aggregation_Temporality) \<Rightarrow>
   aggregation_Kind" where
  "aggregatorConfigFor desc' defaults = fst (defaults (InstrumentKind desc'))"

definition histogramDefaultsFor :: "number_Kind \<Rightarrow> histogram_Defaults" where
  "histogramDefaultsFor k = (if k = Int64Kind then Int64Defaults else Float64Defaults)"

text \<open>
  \<^verbatim>\<open>
  func newSyncView[N, Storage, Methods](config configuredBehavior) Instrument {
      _, tempo := config.reader.Defaults()(config.desc.InstrumentKind())
      metric := baseMetric[N, Storage, Methods]{
          desc: config.desc, acfg: config.acfg, data: map[attribute.Set]*Storage{}, keys: config.keys}
      instrument := compiledSyncInstrument[N, Storage, Methods]{baseMetric: metric}
      if tempo == aggregation.DeltaTemporality {
          return &statelessSyncProcess[N, Storage, Methods]{compiledSyncInstrument: instrument}
      }
      return &statefulSyncProcess[N, Storage, Methods]{compiledSyncInstrument: instrument}
  }
  \<close>
  \<^verbatim>\<open>newAsyncView\<close> is the same, with \<^verbatim>\<open>statefulAsyncProcess\<close> (its \<^verbatim>\<open>prior\<close> a nil map) for
  delta temporality and \<^verbatim>\<open>statelessAsyncProcess\<close> otherwise.
\<close>

definition newBaseMetric :: "configuredBehavior \<Rightarrow> 'k baseMetric" where
  "newBaseMetric config =
     \<lparr>desc = configuredBehavior.desc config, acfg = configuredBehavior.acfg config,
      data = Map.empty, keys = configuredBehavior.keys config\<rparr>"

definition newSyncView ::
  "number_Kind \<Rightarrow> storage_Kind \<Rightarrow> configuredBehavior \<Rightarrow> 'k viewstate_Instrument" where
  "newSyncView n st config =
     (let tempo = snd (Defaults (reader config) (InstrumentKind (configuredBehavior.desc config)));
          metric = newBaseMetric config
      in if tempo = DeltaTemporality then StatelessSyncProcess n st metric
         else StatefulSyncProcess n st metric)"

definition newAsyncView ::
  "number_Kind \<Rightarrow> storage_Kind \<Rightarrow> configuredBehavior \<Rightarrow> 'k viewstate_Instrument" where
  "newAsyncView n st config =
     (let tempo = snd (Defaults (reader config) (InstrumentKind (configuredBehavior.desc config)));
          metric = newBaseMetric config
      in if tempo = DeltaTemporality
         then StatefulAsyncProcess n st (baseMetric.extend metric \<lparr>prior = Map.empty\<rparr>)
         else StatelessAsyncProcess n st metric)"

text \<open>
  \<^verbatim>\<open>compileSync\<close> and \<^verbatim>\<open>compileAsync\<close> choose the kernel: \<^verbatim>\<open>lastvalue\<close> for
  \<^verbatim>\<open>LastValueKind\<close>, \<^verbatim>\<open>histogram\<close> for \<^verbatim>\<open>HistogramKind\<close>, \<^verbatim>\<open>sum\<close> by default.
\<close>

definition compileSync :: "number_Kind \<Rightarrow> configuredBehavior \<Rightarrow> 'k viewstate_Instrument" where
  "compileSync n config =
     (case kind config of
        LastValueKind \<Rightarrow> newSyncView n lastvalue_State config
      | HistogramKind \<Rightarrow> newSyncView n histogram_State config
      | _ \<Rightarrow> newSyncView n sum_State config)"

definition compileAsync :: "number_Kind \<Rightarrow> configuredBehavior \<Rightarrow> 'k viewstate_Instrument" where
  "compileAsync n config =
     (case kind config of
        LastValueKind \<Rightarrow> newAsyncView n lastvalue_State config
      | HistogramKind \<Rightarrow> newAsyncView n histogram_State config
      | _ \<Rightarrow> newAsyncView n sum_State config)"

definition buildView :: "number_Kind \<Rightarrow> configuredBehavior \<Rightarrow> 'k viewstate_Instrument" where
  "buildView n config =
     (if Synchronous (InstrumentKind (configuredBehavior.desc config)) then compileSync n config
      else compileAsync n config)"

subsection \<open>Compile\<close>

text \<open>
  The first loops of \<^verbatim>\<open>Compile\<close>:
  \<^verbatim>\<open>
  for _, view := range matches {
      var acfg aggregator.Config
      var kind aggregation.Kind
      switch view.Aggregation() {
      case aggregation.SumKind, aggregation.LastValueKind:
          kind = view.Aggregation()
      case aggregation.HistogramKind:
          kind = view.Aggregation()
          acfg.Histogram = histogram.NewConfig(histogramDefaultsFor(instrument.NumberKind()), view.HistogramOptions()...)
      default:
          kind = aggregatorConfigFor(instrument, r.Defaults())
      }
      if kind == aggregation.DropKind {
          continue
      }
      configs[readerIdx] = append(configs[readerIdx], configuredBehavior{
          desc: viewDescriptor(instrument, view), keys: view.Keys(), kind: kind, acfg: acfg, reader: r})
  }
  // If there were no matching views, set the default aggregation.
  if len(matches) == 0 {
      kind := aggregatorConfigFor(instrument, r.Defaults())
      if kind == aggregation.DropKind {
          continue
      }
      configs[readerIdx] = append(configs[readerIdx], configuredBehavior{desc: instrument, kind: kind, reader: r})
  }
  \<close>
\<close>

fun configureViews ::
  "Descriptor \<Rightarrow> reader_Reader \<Rightarrow> views_View list \<Rightarrow> configuredBehavior list \<Rightarrow>
   configuredBehavior list" where
  "configureViews instrument r [] configs = configs"
| "configureViews instrument r (view # rest) configs =
     (let chosen =
            (case ViewAggregation view of
               SumKind \<Rightarrow> (ViewAggregation view, \<lparr>Histogram = ZeroConfig\<rparr>)
             | LastValueKind \<Rightarrow> (ViewAggregation view, \<lparr>Histogram = ZeroConfig\<rparr>)
             | HistogramKind \<Rightarrow>
                 (ViewAggregation view,
                  \<lparr>Histogram = NewConfig (histogramDefaultsFor (NumberKind instrument))
                                 (HistogramOptions view)\<rparr>)
             | _ \<Rightarrow> (aggregatorConfigFor instrument (Defaults r), \<lparr>Histogram = ZeroConfig\<rparr>))
      in if fst chosen = DropKind then configureViews instrument r rest configs
         else configureViews instrument r rest
                (configs @
                 [\<lparr>configuredBehavior.desc = viewDescriptor instrument view, kind = fst chosen,
                   keys = Keys view,
                   acfg = snd chosen, reader = r\<rparr>]))"

definition configureReader ::
  "Descriptor \<Rightarrow> views_View list \<Rightarrow> reader_Reader \<Rightarrow> configuredBehavior list" where
  "configureReader instrument matches r =
     (let configs = configureViews instrument r matches [] in
      if length matches = 0
      then (let kind' = aggregatorConfigFor instrument (Defaults r) in
            if kind' = DropKind then configs
            else configs @
                 [\<lparr>configuredBehavior.desc = instrument, kind = kind', keys = None,
                   acfg = \<lparr>Histogram = ZeroConfig\<rparr>, reader = r\<rparr>])
      else configs)"

definition configure :: "Compiler \<Rightarrow> Descriptor \<Rightarrow> configuredBehavior list list" where
  "configure v instrument =
     (let matches = filter (\<lambda>view. Matches view (library v) instrument) (views v)
      in map (configureReader instrument matches) (readers v))"

text \<open>\<^verbatim>\<open>compiled[r] = append(compiled[r], one)\<close> on the list of the map's entries.\<close>

definition appendCompiled ::
  "(nat \<times> 'k viewstate_Instrument list) list \<Rightarrow> nat \<Rightarrow> 'k viewstate_Instrument \<Rightarrow>
   (nat \<times> 'k viewstate_Instrument list) list" where
  "appendCompiled compiled' r one =
     (case map_of compiled' r of
        None \<Rightarrow> compiled' @ [(r, [one])]
      | Some l \<Rightarrow> map (\<lambda>e. if fst e = r then (r, snd e @ [one]) else e) compiled')"

text \<open>
  The loop under \<^verbatim>\<open>namesLock\<close>:
  \<^verbatim>\<open>
  for readerIdx, readerList := range configs {
      r := v.readers[readerIdx]
      for _, config := range readerList {
          if _, has := v.names[readerIdx][config.desc.Name()]; has {
              otel.Handle(fmt.Errorf("duplicate view name registered"))
              continue
          }
          v.names[readerIdx][config.desc.Name()] = struct{}{}
          var one Instrument
          switch config.desc.NumberKind() {
          case number.Int64Kind:
              one = buildView[int64, traits.Int64](config)
          case number.Float64Kind:
              one = buildView[float64, traits.Float64](config)
          }
          compiled[r] = append(compiled[r], one)
      }
  }
  \<close>
  Its state is \<^verbatim>\<open>v.names\<close>, \<^verbatim>\<open>compiled\<close> and the errors handled so far; \<open>buildOne\<close> is
  the switch on the number kind that sets \<^verbatim>\<open>one\<close>.
\<close>

definition buildOne :: "configuredBehavior \<Rightarrow> 'k viewstate_Instrument" where
  "buildOne config =
     (case NumberKind (configuredBehavior.desc config) of
        Int64Kind \<Rightarrow> buildView Int64Kind config
      | Float64Kind \<Rightarrow> buildView Float64Kind config)"

type_synonym 'k compileState =
  "string set list \<times> (nat \<times> 'k viewstate_Instrument list) list \<times> error list"

fun compileReaderList ::
  "nat \<Rightarrow> reader_Reader \<Rightarrow> configuredBehavior list \<Rightarrow> 'k compileState \<Rightarrow>
   panic + 'k compileState" where
  "compileReaderList readerIdx r [] st = Inr st"
| "compileReaderList readerIdx r (config # rest) (names', compiled', errs) =
     (if length names' \<le> readerIdx then Inl IndexOutOfRange
      else if Name (configuredBehavior.desc config) \<in> names' ! readerIdx
      then compileReaderList readerIdx r rest
             (names', compiled', errs @ [''duplicate view name registered''])
      else
        (let registered =
               names'[readerIdx :=
                        insert (Name (configuredBehavior.desc config)) (names' ! readerIdx)];
             one = buildOne config
         in compileReaderList readerIdx r rest
              (registered, appendCompiled compiled' (ReaderAddr r) one, errs)))"

fun compileLoop ::
  "reader_Reader list \<Rightarrow> nat \<Rightarrow> configuredBehavior list list \<Rightarrow> 'k compileState \<Rightarrow>
   panic + 'k compileState" where
  "compileLoop rs readerIdx [] st = Inr st"
| "compileLoop rs readerIdx (readerList # rest) st =
     (if length rs \<le> readerIdx then Inl IndexOutOfRange
      else case compileReaderList readerIdx (rs ! readerIdx) readerList st of
             Inl p \<Rightarrow> Inl p
           | Inr st' \<Rightarrow> compileLoop rs (Suc readerIdx) rest st')"

text \<open>
  The end of \<^verbatim>\<open>Compile\<close>:
  \<^verbatim>\<open>
  switch len(compiled) {
  case 0:
      return nil // TODO does this require a Noop?
  case 1:
      for _, list := range compiled {
          if len(list) == 1 {
              return list[0]
          }
      }
  }
  if instrument.NumberKind() == number.Int64Kind {
      return multiInstrument[int64](compiled)
  }
  return multiInstrument[float64](compiled)
  \<close>
\<close>

definition wrapCompiled ::
  "Descriptor \<Rightarrow> (nat \<times> 'k viewstate_Instrument list) list \<Rightarrow> 'k viewstate_Instrument option" where
  "wrapCompiled instrument compiled' =
     (case compiled' of
        [] \<Rightarrow> None
      | [(r, [one])] \<Rightarrow> Some one
      | _ \<Rightarrow>
          (if NumberKind instrument = Int64Kind then Some (MultiInstrument Int64Kind compiled')
           else Some (MultiInstrument Float64Kind compiled')))"

text \<open>
  \<^verbatim>\<open>Compile\<close> up to its final switch: the new \<^verbatim>\<open>v.names\<close>, the map \<^verbatim>\<open>compiled\<close> and the
  errors given to \<^verbatim>\<open>otel.Handle\<close>.
\<close>

definition compileAll :: "Compiler \<Rightarrow> Descriptor \<Rightarrow> panic + 'k compileState" where
  "compileAll v instrument = compileLoop (readers v) 0 (configure v instrument) (names v, [], [])"

text \<open>
  \<^verbatim>\<open>func (v *Compiler) Compile(instrument sdkapi.Descriptor) Instrument\<close>: the instrument
  returned (\<open>None\<close> is nil), the compiler with its names updated, and the errors handled.
\<close>

definition Compile ::
  "Compiler \<Rightarrow> Descriptor \<Rightarrow> panic + ('k viewstate_Instrument option \<times> Compiler \<times> error list)" where
  "Compile v instrument =
     (case compileAll v instrument of
        Inl p \<Rightarrow> Inl p
      | Inr (names', compiled', errs) \<Rightarrow>
          Inr (wrapCompiled instrument compiled', v\<lparr>names := names'\<rparr>, errs))"

section \<open>Asynchronous instruments (package asyncstate)\<close>

text \<open>
  \<^verbatim>\<open>readerState\<close> and \<^verbatim>\<open>Instrument\<close>. \<^verbatim>\<open>compiled viewstate.Instrument\<close> is an interface
  value, \<open>None\<close> when it is nil; \<^verbatim>\<open>state\<close> is keyed by the address of a
  \<^verbatim>\<open>reader.Config\<close>. The accumulators a \<^verbatim>\<open>store\<close> points to are held in it.
\<close>

record ('k, 'acc) readerState =
  store :: "'k \<rightharpoonup> 'acc"

record ('c, 'k, 'acc) asyncstate_Instrument =
  descriptor :: Descriptor
  compiled :: "'c option"
  state :: "nat \<rightharpoonup> ('k, 'acc) readerState"

text \<open>
  \<^verbatim>\<open>Callback\<close> (its \<^verbatim>\<open>function\<close> is only called by \<^verbatim>\<open>Run\<close> and is left out),
  \<^verbatim>\<open>readerCallback\<close> and \<^verbatim>\<open>Observer\<close>. An \<^verbatim>\<open>*Instrument\<close> is an address, \<open>None\<close>
  when nil.
\<close>

record Callback =
  instruments :: "nat set"

record readerCallback =
  Config :: nat
  Callback :: Callback

record Observer =
  inst :: "nat option"

text \<open>
  The state an \<^verbatim>\<open>Observe\<close> runs in: the errors given to the global handler so far
  (oldest first), the \<^verbatim>\<open>Instrument\<close> behind every address, and the state of the
  compiled pipelines, which \<^verbatim>\<open>NewAccumulator\<close> changes.
\<close>

record ('c, 'k, 'acc, 'w) world =
  handled :: "error list"
  instrumentAt :: "nat \<Rightarrow> ('c, 'k, 'acc) asyncstate_Instrument"
  pipelines :: 'w

text \<open>
  What package asyncstate calls and the sources do not hold, or reaches only through
  an interface: \<^verbatim>\<open>aggregator.RangeTest\<close> (\<open>None\<close> is a nil error), \<^verbatim>\<open>attribute.NewSet\<close>,
  the \<^verbatim>\<open>NewAccumulator\<close> method of the compiled \<^verbatim>\<open>viewstate.Instrument\<close> and the
  \<^verbatim>\<open>Update\<close> and \<^verbatim>\<open>Accumulate\<close> methods of a \<^verbatim>\<open>viewstate.Accumulator\<close>.
\<close>

record ('n, 'c, 'k, 'acc, 'w) asyncstate_Calls =
  RangeTest :: "'n \<Rightarrow> Descriptor \<Rightarrow> error option"
  NewSet :: "attribute_KeyValue list \<Rightarrow> 'k"
  NewAccumulator :: "'c \<Rightarrow> 'k \<Rightarrow> nat \<Rightarrow> 'w \<Rightarrow> 'acc \<times> 'w"
  AccumulatorUpdate :: "'acc \<Rightarrow> 'n \<Rightarrow> 'acc"
  AccumulatorAccumulate :: "'acc \<Rightarrow> 'w \<Rightarrow> 'acc \<times> 'w"

text \<open>
  \<^verbatim>\<open>
  func NewInstrument(desc sdkinstrument.Descriptor, compiled viewstate.Instrument, readers []*reader.Config) *Instrument {
      state := map[*reader.Config]*readerState{}
      for _, r := range readers {
          state[r] = &readerState{store: map[attribute.Set]viewstate.Accumulator{}}
      }
      return &Instrument{descriptor: desc, compiled: compiled, state: state}
  }
  \<close>
\<close>

definition NewInstrument ::
  "Descriptor \<Rightarrow> 'c option \<Rightarrow> nat list \<Rightarrow> ('c, 'k, 'acc) asyncstate_Instrument" where
  "NewInstrument desc' compiled' readers' =
     \<lparr>descriptor = desc', compiled = compiled',
      state = (\<lambda>r. if r \<in> set readers' then Some \<lparr>store = Map.empty\<rparr> else None)\<rparr>"

definition NewObserver :: "nat option \<Rightarrow> Observer" where
  "NewObserver i = \<lparr>inst = i\<rparr>"

definition Handle :: "error \<Rightarrow> ('c, 'k, 'acc, 'w) world \<Rightarrow> ('c, 'k, 'acc, 'w) world" where
  "Handle err w = w\<lparr>handled := handled w @ [err]\<rparr>"

text \<open>
  \<^verbatim>\<open>
  func (inst *Instrument) get(r *reader.Config, attrs []attribute.KeyValue) viewstate.Accumulator {
      rs := inst.state[r]
      rs.lock.Lock()
      defer rs.lock.Unlock()
      aset := attribute.NewSet(attrs...)
      se, has := rs.store[aset]
      if !has {
          se = inst.compiled.NewAccumulator(aset, r)
          rs.store[aset] = se
      }
      return se
  }
  \<close>
  A reader that is not a key of \<^verbatim>\<open>inst.state\<close> gives a nil \<^verbatim>\<open>rs\<close>, and \<^verbatim>\<open>rs.lock\<close>
  panics; a nil \<^verbatim>\<open>inst.compiled\<close> panics at the method call. The result is the key
  under which the accumulator stands in the reader's store, and the new state.
\<close>

definition Instrument_get ::
  "('n, 'c, 'k, 'acc, 'w) asyncstate_Calls \<Rightarrow> nat \<Rightarrow> nat \<Rightarrow> attribute_KeyValue list \<Rightarrow>
   ('c, 'k, 'acc, 'w) world \<Rightarrow> panic + ('k \<times> ('c, 'k, 'acc, 'w) world)" where
  "Instrument_get calls i r attrs w =
     (let this = instrumentAt w i in
      case state this r of
        None \<Rightarrow> Inl NilDereference
      | Some rs \<Rightarrow>
          (let aset = NewSet calls attrs in
           case store rs aset of
             Some se \<Rightarrow> Inr (aset, w)
           | None \<Rightarrow>
               (case compiled this of
                  None \<Rightarrow> Inl NilDereference
                | Some c \<Rightarrow>
                    (let made = NewAccumulator calls c aset r (pipelines w);
                         rs' = rs\<lparr>store := (store rs)(aset \<mapsto> fst made)\<rparr>;
                         this' = this\<lparr>state := (state this)(r \<mapsto> rs')\<rparr>
                     in Inr (aset,
                             w\<lparr>instrumentAt := (instrumentAt w)(i := this'),
                               pipelines := snd made\<rparr>)))))"

text \<open>
  \<^verbatim>\<open>
  func (o Observer[N, Traits]) Observe(ctx context.Context, value N, attrs ...attribute.KeyValue) {
      if o.inst == nil {
          return
      }
      lookup := ctx.Value(contextKey{})
      if lookup == nil {
          otel.Handle(fmt.Errorf("async instrument used outside of callback"))
          return
      }
      rc := lookup.(readerCallback)
      if _, ok := rc.Callback.instruments[o.inst]; !ok {
          otel.Handle(fmt.Errorf("async instrument not declared for use in callback"))
      }
      if err := aggregator.RangeTest[N, Traits](value, &o.inst.descriptor); err != nil {
          otel.Handle(err)
          return
      }
      se := o.inst.get(rc.Config, attrs)
      se.(viewstate.AccumulatorUpdater[N]).Update(value)
  }
  \<close>
  The context is what \<^verbatim>\<open>ctx.Value(contextKey{})\<close> finds in it: \<open>None\<close> outside of
  \<^verbatim>\<open>Callback.Run\<close>, the \<^verbatim>\<open>readerCallback\<close> inside.
\<close>

text \<open>
  \<^verbatim>\<open>se.(viewstate.AccumulatorUpdater[N]).Update(value)\<close> writes the accumulator that the
  reader's store holds under the key \<^verbatim>\<open>get\<close> returned.
\<close>

definition updateAt ::
  "('n, 'c, 'k, 'acc, 'w) asyncstate_Calls \<Rightarrow> nat \<Rightarrow> nat \<Rightarrow> 'k \<Rightarrow> 'n \<Rightarrow>
   ('c, 'k, 'acc, 'w) world \<Rightarrow> ('c, 'k, 'acc, 'w) world" where
  "updateAt calls i r aset v w =
     (let this = instrumentAt w i in
      case state this r of
        None \<Rightarrow> w
      | Some rs \<Rightarrow>
          (case store rs aset of
             None \<Rightarrow> w
           | Some se \<Rightarrow>
               w\<lparr>instrumentAt := (instrumentAt w)
                    (i := this\<lparr>state := (state this)
                       (r \<mapsto> rs\<lparr>store := (store rs)(aset \<mapsto> AccumulatorUpdate calls se v)\<rparr>)\<rparr>)\<rparr>))"

definition Observe ::
  "('n, 'c, 'k, 'acc, 'w) asyncstate_Calls \<Rightarrow> Observer \<Rightarrow> readerCallback option \<Rightarrow> 'n \<Rightarrow>
   attribute_KeyValue list \<Rightarrow> ('c, 'k, 'acc, 'w) world \<Rightarrow>
   panic + ('c, 'k, 'acc, 'w) world" where
  "Observe calls ob ctx v attrs w =
     (case inst ob of
        None \<Rightarrow> Inr w
      | Some i \<Rightarrow>
          (case ctx of
             None \<Rightarrow> Inr (Handle ''async instrument used outside of callback'' w)
           | Some rc \<Rightarrow>
               (let w1 = (if i \<notin> instruments (Callback rc)
                          then Handle ''async instrument not declared for use in callback'' w
                          else w)
                in case RangeTest calls v (descriptor (instrumentAt w1 i)) of
                     Some err \<Rightarrow> Inr (Handle err w1)
                   | None \<Rightarrow>
                       (case Instrument_get calls i (Config rc) attrs w1 of
                          Inl p \<Rightarrow> Inl p
                        | Inr (aset, w2) \<Rightarrow> Inr (updateAt calls i (Config rc) aset v w2)))))"

text \<open>
  \<^verbatim>\<open>
  func (inst *Instrument) AccumulateFor(r *reader.Config) {
      rs := inst.state[r]
      rs.lock.Lock()
      defer rs.lock.Unlock()
      for _, capt := range rs.store {
          capt.Accumulate()
      }
      rs.store = map[attribute.Set]viewstate.Accumulator{}
  }
  \<close>
  \<open>order\<close> is the order in which the \<^verbatim>\<open>range\<close> statement visits the store.
\<close>

fun accumulateAll ::
  "('n, 'c, 'k, 'acc, 'w) asyncstate_Calls \<Rightarrow> ('k \<rightharpoonup> 'acc) \<Rightarrow> 'k list \<Rightarrow> 'w \<Rightarrow> 'w" where
  "accumulateAll calls st [] v = v"
| "accumulateAll calls st (aset # rest) v =
     (case st aset of
        None \<Rightarrow> accumulateAll calls st rest v
      | Some capt \<Rightarrow> accumulateAll calls st rest (snd (AccumulatorAccumulate calls capt v)))"

definition AccumulateFor ::
  "('n, 'c, 'k, 'acc, 'w) asyncstate_Calls \<Rightarrow> 'k list \<Rightarrow> nat \<Rightarrow> nat \<Rightarrow>
   ('c, 'k, 'acc, 'w) world \<Rightarrow> panic + ('c, 'k, 'acc, 'w) world" where
  "AccumulateFor calls order i r w =
     (let this = instrumentAt w i in
      case state this r of
        None \<Rightarrow> Inl NilDereference
      | Some rs \<Rightarrow>
          Inr (w\<lparr>pipelines := accumulateAll calls (store rs) order (pipelines w),
                 instrumentAt := (instrumentAt w)
                   (i := this\<lparr>state := (state this)(r \<mapsto> rs\<lparr>store := Map.empty\<rparr>)\<rparr>)\<rparr>))"

section \<open>A kernel and a pipeline to run\<close>

text \<open>
  Modelled from the spec: the sum kernel (package sum) is not among the sources. Spec
  section 4.2: storage is a single \<open>N\<close>; \<open>Update\<close> adds; \<open>SynchronizedMove(from, to)\<close> is a
  swap with zero; \<open>Merge(src, dst)\<close> folds \<open>src\<close> into \<open>dst\<close> by addition;
  \<open>SubtractSwap(new, prior)\<close> stores \<open>new - prior\<close> into \<open>prior\<close>; \<open>Reset\<close> returns to
  the \<open>Init\<close> state; \<open>HasData\<close> holds when the state has changed from \<open>Init\<close>. \<open>N\<close> is
  \<^verbatim>\<open>int64\<close>, whose arithmetic wraps.
\<close>

definition sum_Methods :: "(64 word, 64 word) Methods" where
  "sum_Methods =
     \<lparr>Init = (\<lambda>cfg. 0),
      Update = (\<lambda>s v. s + v),
      SynchronizedMove = (\<lambda>src dst. (0, src)),
      Merge = (\<lambda>src dst. (src, dst + src)),
      Reset = (\<lambda>s. 0),
      SubtractSwap = (\<lambda>operand argument. (operand, operand - argument)),
      HasData = (\<lambda>s. s \<noteq> 0)\<rparr>"

text \<open>
  What a reader sees when it reads an output through the store: of a series its
  attributes, the contents of its storage and its times; of an output the series of
  every instrument.
\<close>

definition seriesView :: "'s heap \<Rightarrow> 'k reader_Series \<Rightarrow> 'k \<times> 's \<times> time \<times> time" where
  "seriesView h s = (Attributes s, cell h (Aggregation s), StartTime s, EndTime s)"

definition observedSeries ::
  "'s heap \<Rightarrow> 'k reader_Instrument list \<Rightarrow> ('k \<times> 's \<times> time \<times> time) list list" where
  "observedSeries h out = map (\<lambda>i. map (seriesView h) (Series i)) out"

text \<open>
  The calls of package asyncstate bound to one cumulative-to-delta pipeline: the
  compiled instrument is that pipeline, whose state and store are the \<open>pipelines\<close> of
  the world; an attribute set is the list of key-values it was made from, unfiltered.
\<close>

definition pipelineCalls ::
  "('n::zero, 's) Methods \<Rightarrow> ('n \<Rightarrow> Descriptor \<Rightarrow> error option) \<Rightarrow>
   ('n, unit, attribute_KeyValue list, ('n, 's) asyncAccumulator,
    attribute_KeyValue list statefulAsyncProcess \<times> 's heap) asyncstate_Calls" where
  "pipelineCalls methods rangeTest =
     \<lparr>RangeTest = rangeTest,
      NewSet = (\<lambda>attrs. attrs),
      NewAccumulator = (\<lambda>c aset r w.
         (let made = compiledAsyncInstrument_NewAccumulator methods (\<lambda>kvs f. kvs)
                       (fst w) aset (snd w)
          in (fst made, snd made))),
      AccumulatorUpdate = asyncAccumulator_Update,
      AccumulatorAccumulate = (\<lambda>ac w.
         (let done = asyncAccumulator_Accumulate methods ac (snd w)
          in (fst done, (fst w, snd done))))\<rparr>"

section \<open>Well-formed pipeline states\<close>

text \<open>
  The order a \<^verbatim>\<open>range\<close> statement may produce for a map: every key once.
\<close>

definition rangeOrder :: "'k list \<Rightarrow> ('k \<rightharpoonup> addr) \<Rightarrow> bool" where
  "rangeOrder order m = (distinct order \<and> set order = dom m)"

text \<open>
  What \<^verbatim>\<open>findOutput\<close> maintains of a storage map: no two attribute sets share a
  storage, and every storage has been allocated.
\<close>

definition distinctStorage :: "('k \<rightharpoonup> addr) \<Rightarrow> bool" where
  "distinctStorage m = (\<forall>k k' a. m k = Some a \<longrightarrow> m k' = Some a \<longrightarrow> k = k')"

definition allocated :: "('k \<rightharpoonup> addr) \<Rightarrow> 's heap \<Rightarrow> bool" where
  "allocated m h = (\<forall>k a. m k = Some a \<longrightarrow> a < nextAddr h)"

text \<open>The entries of a storage map whose cells have data in a store.\<close>

definition withData :: "('n, 's) Methods \<Rightarrow> 's heap \<Rightarrow> ('k \<rightharpoonup> addr) \<Rightarrow> ('k \<rightharpoonup> addr)" where
  "withData methods h m k =
     (case m k of
        None \<Rightarrow> None
      | Some a \<Rightarrow> if HasData methods (cell h a) then Some a else None)"

text \<open>
  No storage of the current map is a storage of the prior map: \<^verbatim>\<open>Collect\<close> moves the
  current map to \<^verbatim>\<open>prior\<close> and starts an empty one, which \<^verbatim>\<open>findOutput\<close> fills with
  new storage.
\<close>

definition disjointStorage :: "('k \<rightharpoonup> addr) \<Rightarrow> ('k \<rightharpoonup> addr) \<Rightarrow> bool" where
  "disjointStorage m m' = (\<forall>k k' a. m k = Some a \<longrightarrow> m' k' \<noteq> Some a)"

text \<open>
  A kernel operation on two storage pointers that writes the second only, as the
  comment at the call of \<^verbatim>\<open>SubtractSwap\<close> says of it:
  \<^verbatim>\<open>// This does `*pval := *storage - *pval`\<close>.
\<close>

definition keepsOperand :: "('s \<Rightarrow> 's \<Rightarrow> 's \<times> 's) \<Rightarrow> bool" where
  "keepsOperand f = (\<forall>x y. fst (f x y) = x)"

text \<open>
  The series the cumulative-to-delta collection is specified to emit for one attribute
  set, in the words of the spec (section 4.4): nothing when the set has no current
  entry; the cumulative value when there is no prior entry; otherwise the difference
  \<open>SubtractSwap\<close> leaves in the prior storage, skipped when it has no data, and replaced
  by the new cumulative value when the instrument has no temporality (a gauge). Each
  series runs from \<open>seq.Start\<close> to \<open>seq.Now\<close>.
\<close>

definition deltaSeries ::
  "('n, 's) Methods \<Rightarrow> 'k statefulAsyncProcess \<Rightarrow> 's heap \<Rightarrow> reader_Sequence \<Rightarrow> 'k \<Rightarrow>
   ('k \<times> 's \<times> time \<times> time) list" where
  "deltaSeries methods p h seq k =
     (case data p k of
        None \<Rightarrow> []
      | Some storage \<Rightarrow>
          (case prior p k of
             None \<Rightarrow> [(k, cell h storage, Start seq, Now seq)]
           | Some pval \<Rightarrow>
               (let difference = snd (SubtractSwap methods (cell h storage) (cell h pval)) in
                if \<not> HasData methods difference then []
                else if HasTemporality (InstrumentKind (desc p))
                then [(k, difference, Start seq, Now seq)]
                else [(k, cell h storage, Start seq, Now seq)])))"

section \<open>What the compiler is specified to register\<close>

definition behaviorName :: "configuredBehavior \<Rightarrow> string" where
  "behaviorName config = Name (configuredBehavior.desc config)"

text \<open>
  The behaviors of one reader that register their name: those whose name is not in the
  reader's set \<open>N\<close> when \<^verbatim>\<open>Compile\<close> starts and is the name of no earlier behavior in the
  reader's list. Every other behavior is a duplicate and costs one error.
\<close>

definition firstRegistrations ::
  "string set \<Rightarrow> configuredBehavior list \<Rightarrow> configuredBehavior list" where
  "firstRegistrations N cs =
     map (\<lambda>j. cs ! j)
       (filter (\<lambda>j. behaviorName (cs ! j) \<notin> N \<and>
                     (\<forall>i<j. behaviorName (cs ! i) \<noteq> behaviorName (cs ! j)))
          [0..<length cs])"

definition duplicateErrors :: "string set \<Rightarrow> configuredBehavior list \<Rightarrow> error list" where
  "duplicateErrors N cs =
     replicate (length cs - length (firstRegistrations N cs)) ''duplicate view name registered''"

definition registeredNames :: "string set \<Rightarrow> configuredBehavior list \<Rightarrow> string set" where
  "registeredNames N cs = N \<union> behaviorName ` set cs"

text \<open>
  The map \<^verbatim>\<open>compiled\<close> as specified: for every reader that has a first registration, in
  the order of \<^verbatim>\<open>v.readers\<close>, the pipelines built from its first registrations.
\<close>

definition expectedCompiled ::
  "Compiler \<Rightarrow> Descriptor \<Rightarrow> (nat \<times> 'k viewstate_Instrument list) list" where
  "expectedCompiled v instrument =
     filter (\<lambda>e. snd e \<noteq> [])
       (map (\<lambda>(r, N, cs). (ReaderAddr r, map buildOne (firstRegistrations N cs)))
          (zip (readers v) (zip (names v) (configure v instrument))))"

text \<open>
  \<^verbatim>\<open>mi[reader]\<close>, the pipelines a \<^verbatim>\<open>multiInstrument\<close> holds for a reader, and the descriptor
  a pipeline was built with.
\<close>

definition pipelinesFor ::
  "(nat \<times> 'k viewstate_Instrument list) list \<Rightarrow> nat \<Rightarrow> 'k viewstate_Instrument list" where
  "pipelinesFor compiled' r = (case map_of compiled' r of None \<Rightarrow> [] | Some l \<Rightarrow> l)"

fun pipelineDesc :: "'k viewstate_Instrument \<Rightarrow> Descriptor option" where
  "pipelineDesc (StatelessSyncProcess n st metric) = Some (desc metric)"
| "pipelineDesc (StatefulSyncProcess n st metric) = Some (desc metric)"
| "pipelineDesc (StatelessAsyncProcess n st metric) = Some (desc metric)"
| "pipelineDesc (StatefulAsyncProcess n st metric) = Some (desc metric)"
| "pipelineDesc (MultiInstrument n m) = None"

text \<open>
  A compiler's life: \<^verbatim>\<open>Compile\<close> called for one instrument after the other, each call
  starting from the names the calls before it left.
\<close>

fun compileSeq :: "Compiler \<Rightarrow> Descriptor list \<Rightarrow> panic + Compiler" where
  "compileSeq v [] = Inr v"
| "compileSeq v (instrument # rest) =
     (case (Compile v instrument ::
              panic + (unit viewstate_Instrument option \<times> Compiler \<times> error list)) of
        Inl p \<Rightarrow> Inl p
      | Inr (compiled', v', errs) \<Rightarrow> compileSeq v' rest)"

section \<open>Example configurations\<close>

definition exampleLibrary :: instrumentation_Library where
  "exampleLibrary = \<lparr>LibraryName = ''lib'', Version = '''', SchemaURL = ''''\<rparr>"

text \<open>A reader at address 7 whose default for every instrument is a cumulative sum.\<close>

definition sumReader :: reader_Reader where
  "sumReader = \<lparr>ReaderAddr = 7, Defaults = (\<lambda>k. (SumKind, CumulativeTemporality))\<rparr>"


definition int64Instrument :: "string \<Rightarrow> sdkinstrument_Kind \<Rightarrow> Descriptor" where
  "int64Instrument n k =
     \<lparr>Name = n, InstrumentKind = k, NumberKind = Int64Kind, Description = '''', Unit = ''1''\<rparr>"

section \<open>Properties of viewDescriptor\<close>

lemma viewDescriptor_Description: "Description (viewDescriptor instrument v) = Description instrument"
  by (simp add: viewDescriptor_def NewDescriptor_def Let_def)

lemma viewDescriptor_Name:
  "Name (viewDescriptor instrument v) = (if HasName v then ViewName v else Name instrument)"
  by (simp add: viewDescriptor_def NewDescriptor_def Let_def)

lemma viewDescriptor_kinds:
  "InstrumentKind (viewDescriptor instrument v) = InstrumentKind instrument"
  "NumberKind (viewDescriptor instrument v) = NumberKind instrument"
  "Unit (viewDescriptor instrument v) = Unit instrument"
  by (simp_all add: viewDescriptor_def NewDescriptor_def Let_def)

text \<open>
  C4. A view with a non-empty description override is claimed to put its description in
  place of the instrument's. The guarded assignment in \<^verbatim>\<open>viewDescriptor\<close> assigns the
  instrument's own description again, so the override is lost: for the counter
  \<open>requests\<close> described as \<open>original\<close> and a view renaming it to \<open>renamed\<close> with
  description \<open>override\<close>, the compiled descriptor is named \<open>renamed\<close> (the name override
  works) and still described as \<open>original\<close>.
\<close>

theorem C4_view_description_not_applied:
  "viewDescriptor
     \<lparr>Name = ''requests'', InstrumentKind = CounterKind, NumberKind = Int64Kind,
      Description = ''original'', Unit = ''1''\<rparr>
     \<lparr>Matches = (\<lambda>l d. True), ViewAggregation = SumKind, HasName = True,
      ViewName = ''renamed'', ViewDescription = ''override'', Keys = None,
      HistogramOptions = []\<rparr>
   = \<lparr>Name = ''renamed'', InstrumentKind = CounterKind, NumberKind = Int64Kind,
      Description = ''original'', Unit = ''1''\<rparr>"
  by (simp add: viewDescriptor_def NewDescriptor_def)

section \<open>Properties of Observe\<close>

lemma Instrument_get_nil_compiled:
  assumes "state (instrumentAt w i) r = Some rs"
    and "store rs (NewSet calls attrs) = None"
    and "compiled (instrumentAt w i) = None"
  shows "Instrument_get calls i r attrs w = Inl NilDereference"
  using assms by (simp add: Instrument_get_def Let_def)

lemma Observe_nil_instrument: "inst ob = None \<Longrightarrow> Observe calls ob ctx v attrs w = Inr w"
  by (simp add: Observe_def)

text \<open>
  C7, as amended. An \<^verbatim>\<open>Observe\<close> whose context holds no reader callback returns without
  panic, leaves every instrument, every accumulator store and every pipeline as it
  was, and, when the observer's instrument is not nil, hands exactly one error to the
  global handler: \<open>async instrument used outside of callback\<close>. An observer whose
  instrument is nil returns before the context is looked at and reports nothing.
\<close>

theorem C7_observe_outside_callback:
  "\<exists>w'. Observe calls ob None v attrs w = Inr w' \<and>
        instrumentAt w' = instrumentAt w \<and> pipelines w' = pipelines w \<and>
        handled w' =
          (case inst ob of
             None \<Rightarrow> handled w
           | Some i \<Rightarrow> handled w @ [''async instrument used outside of callback''])"
  by (simp add: Observe_def Handle_def split: option.split)

text \<open>
  C7 as stated fails for the observer of a nil instrument (what \<^verbatim>\<open>NewObserver\<close> wraps
  when the instrument could not be created): observing 5 outside of any callback
  returns with the handler's list still empty.
\<close>

theorem C7_nil_observer_reports_nothing:
  "\<exists>w'. Observe (pipelineCalls sum_Methods (\<lambda>v d. None)) (NewObserver None) None 5
          [(''a'', ''1'')]
          \<lparr>handled = [],
           instrumentAt = (\<lambda>i. NewInstrument
              \<lparr>Name = ''queue'', InstrumentKind = CounterObserverKind, NumberKind = Int64Kind,
               Description = '''', Unit = ''1''\<rparr> (Some ()) [7]),
           pipelines =
             (\<lparr>desc = \<lparr>Name = ''queue'', InstrumentKind = CounterObserverKind,
                       NumberKind = Int64Kind, Description = '''', Unit = ''1''\<rparr>,
               acfg = \<lparr>Histogram = ZeroConfig\<rparr>, data = Map.empty, keys = None,
               prior = Map.empty\<rparr>,
              \<lparr>cell = (\<lambda>a. 0), nextAddr = 0\<rparr>)\<rparr> = Inr w' \<and>
        handled w' = []"
  by (simp add: Observe_def NewObserver_def)

text \<open>
  C8. An \<^verbatim>\<open>Observe\<close> inside a callback that did not declare the instrument is claimed to
  be dropped after the error is reported. \<^verbatim>\<open>Observe\<close> does not return after reporting
  \<open>not declared\<close>: the value goes on to the range test and to the reader's accumulator.
  Here reader 7 runs a callback that declares no instrument, and the counter observer
  at address 0 observes 5 on \<open>{a:1}\<close>: the error is reported, and after
  \<^verbatim>\<open>AccumulateFor\<close> and \<^verbatim>\<open>Collect\<close> the reader is given the series \<open>{a:1}: 5\<close>.
\<close>

theorem C8_undeclared_observation_reaches_series:
  "(case Observe (pipelineCalls sum_Methods (\<lambda>v d. None)) (NewObserver (Some 0))
           (Some \<lparr>Config = 7, Callback = \<lparr>instruments = {}\<rparr>\<rparr>) 5 [(''a'', ''1'')]
           \<lparr>handled = [],
            instrumentAt = (\<lambda>i. NewInstrument
               \<lparr>Name = ''queue'', InstrumentKind = CounterObserverKind, NumberKind = Int64Kind,
                Description = '''', Unit = ''1''\<rparr> (Some ()) [7]),
            pipelines =
              (\<lparr>desc = \<lparr>Name = ''queue'', InstrumentKind = CounterObserverKind,
                        NumberKind = Int64Kind, Description = '''', Unit = ''1''\<rparr>,
                acfg = \<lparr>Histogram = ZeroConfig\<rparr>, data = Map.empty, keys = None,
                prior = Map.empty\<rparr>,
               \<lparr>cell = (\<lambda>a. 0), nextAddr = 0\<rparr>)\<rparr> of
      Inl p \<Rightarrow> None
    | Inr w1 \<Rightarrow>
        (case AccumulateFor (pipelineCalls sum_Methods (\<lambda>v d. None)) [[(''a'', ''1'')]] 0 7 w1 of
           Inl p \<Rightarrow> None
         | Inr w2 \<Rightarrow>
             (case statefulAsyncProcess_Collect sum_Methods [[(''a'', ''1'')]] (fst (pipelines w2))
                     \<lparr>Start = 0, Last = 0, Now = 1\<rparr> [] (snd (pipelines w2)) of
                (p', out, h') \<Rightarrow> Some (handled w2, observedSeries h' out))))
   = Some ([''async instrument not declared for use in callback''],
           [[([(''a'', ''1'')], 5, 0, 1)]])"
  by (simp add: Observe_def NewObserver_def Handle_def pipelineCalls_def NewInstrument_def
      Instrument_get_def updateAt_def compiledAsyncInstrument_NewAccumulator_def findOutput_def
      newStorage_def alloc_def sum_Methods_def asyncAccumulator_Update_def AccumulateFor_def
      asyncAccumulator_Accumulate_def statefulAsyncProcess_Collect_def appendSeries_def
      observedSeries_def seriesView_def Let_def)

text \<open>
  C6. An instrument for which \<^verbatim>\<open>Compile\<close> builds no pipeline is claimed to discard
  every measurement without fault. \<^verbatim>\<open>Compile\<close> does return nil then, but
  \<^verbatim>\<open>Instrument.get\<close> calls \<^verbatim>\<open>NewAccumulator\<close> on it. Here the only reader (at address 7)
  drops every instrument by default and there is no view: \<^verbatim>\<open>Compile\<close> returns nil and
  reports nothing, the asynchronous instrument is made from that result as
  \<^verbatim>\<open>newAsyncInst\<close> does, and the first \<^verbatim>\<open>Observe\<close> inside a callback of reader 7 that
  declares the instrument panics.
\<close>

theorem C6_observe_on_nil_compiled_panics:
  "(case Compile
           (New \<lparr>LibraryName = ''lib'', Version = '''', SchemaURL = ''''\<rparr> []
              [\<lparr>ReaderAddr = 7, Defaults = (\<lambda>k. (DropKind, CumulativeTemporality))\<rparr>])
           \<lparr>Name = ''queue'', InstrumentKind = CounterObserverKind, NumberKind = Int64Kind,
            Description = '''', Unit = ''1''\<rparr> of
      Inl p \<Rightarrow> None
    | Inr (compiled', v', errs) \<Rightarrow>
        Some (compiled' = (None :: attribute_KeyValue list viewstate_Instrument option), errs,
              Observe
                \<lparr>RangeTest = (\<lambda>v d. None), NewSet = (\<lambda>attrs. attrs),
                 NewAccumulator = (\<lambda>c aset r w. ((0 :: 64 word), w)),
                 AccumulatorUpdate = (\<lambda>se v. v),
                 AccumulatorAccumulate = (\<lambda>se w. (se, w))\<rparr>
                (NewObserver (Some 0))
                (Some \<lparr>Config = 7, Callback = \<lparr>instruments = {0}\<rparr>\<rparr>) 5 [(''a'', ''1'')]
                \<lparr>handled = errs,
                 instrumentAt = (\<lambda>i. NewInstrument
                    \<lparr>Name = ''queue'', InstrumentKind = CounterObserverKind,
                     NumberKind = Int64Kind, Description = '''', Unit = ''1''\<rparr> compiled' [7]),
                 pipelines = ()\<rparr>))
   = Some (True, [], Inl NilDereference)"
  by (simp add: Compile_def compileAll_def configure_def New_def configureReader_def
      aggregatorConfigFor_def wrapCompiled_def Observe_def NewObserver_def NewInstrument_def
      Instrument_get_def)

section \<open>Properties of the delta pipeline of a synchronous instrument\<close>

text \<open>
  C1. A delta collection is claimed to emit, for every attribute set with data, the
  value accumulated since the previous collection: 12 after \<open>+3, +4, +5\<close>, then 1 after
  \<open>+1\<close>. \<^verbatim>\<open>Collect\<close> calls \<^verbatim>\<open>methods.Merge(ns, storage)\<close>, with the fresh storage where
  \<^verbatim>\<open>Accumulate\<close> has its source, so the fresh storage is folded into the cell and the
  cell is reset: the series reports the fresh storage, still empty. With the sum
  kernel on \<open>{a:1}\<close>: the cell holds 12 when the first collection starts and 1 when
  the second starts, and both collections emit the value 0.
\<close>

theorem C1_delta_collect_emits_fresh_storage:
  "(let methods = sum_Methods;
        attrs = [(''a'', ''1'')];
        made = compiledSyncInstrument_NewAccumulator methods (\<lambda>kvs f. kvs)
                 \<lparr>desc = \<lparr>Name = ''requests'', InstrumentKind = CounterKind,
                          NumberKind = Int64Kind, Description = '''', Unit = ''1''\<rparr>,
                  acfg = \<lparr>Histogram = ZeroConfig\<rparr>, data = Map.empty, keys = None\<rparr>
                 attrs \<lparr>cell = (\<lambda>a. 0), nextAddr = 0\<rparr>;
        sc = syncAccumulator_Update methods (fst made) 3;
        sc = syncAccumulator_Update methods sc 4;
        sc = syncAccumulator_Update methods sc 5;
        acc1 = syncAccumulator_Accumulate methods sc (snd (snd made));
        col1 = statelessSyncProcess_Collect methods [attrs] (fst (snd made))
                 \<lparr>Start = 0, Last = 0, Now = 1\<rparr> [] (snd acc1);
        sc = syncAccumulator_Update methods (fst acc1) 1;
        acc2 = syncAccumulator_Accumulate methods sc (snd (snd col1));
        col2 = statelessSyncProcess_Collect methods [attrs] (fst col1)
                 \<lparr>Start = 0, Last = 1, Now = 2\<rparr> [] (snd acc2)
    in (cell (snd acc1) (syncAccumulator.output sc),
        observedSeries (snd (snd col1)) (fst (snd col1)),
        cell (snd acc2) (syncAccumulator.output sc),
        observedSeries (snd (snd col2)) (fst (snd col2))))
   = (12, [[([(''a'', ''1'')], 0, 0, 1)]], 1, [[([(''a'', ''1'')], 0, 1, 2)]])"
proof -
  let ?D = "\<lparr>Name = ''requests'', InstrumentKind = CounterKind, NumberKind = Int64Kind,
             Description = '''', Unit = ''1''\<rparr>"
  let ?attrs = "[(''a'', ''1'')] :: attribute_KeyValue list"
  let ?P1 = "\<lparr>desc = ?D, acfg = \<lparr>Histogram = ZeroConfig\<rparr>, data = [?attrs \<mapsto> 0],
              keys = None\<rparr>"
  let ?zero = "\<lambda>a::addr. 0 :: 64 word"
  have made:
    "compiledSyncInstrument_NewAccumulator sum_Methods (\<lambda>kvs f. kvs)
       \<lparr>desc = ?D, acfg = \<lparr>Histogram = ZeroConfig\<rparr>, data = Map.empty, keys = None\<rparr>
       ?attrs \<lparr>cell = ?zero, nextAddr = 0\<rparr>
     = (\<lparr>syncAccumulator.current = 0, snapshot = 0, output = 0\<rparr>, ?P1,
        \<lparr>cell = ?zero, nextAddr = 1\<rparr>)"
    by (simp add: compiledSyncInstrument_NewAccumulator_def findOutput_def newStorage_def
        alloc_def sum_Methods_def fun_upd_idem)
  have acc1:
    "syncAccumulator_Accumulate sum_Methods
       (syncAccumulator_Update sum_Methods
          (syncAccumulator_Update sum_Methods
             (syncAccumulator_Update sum_Methods
                \<lparr>syncAccumulator.current = 0, snapshot = 0, output = 0\<rparr> 3) 4) 5)
       \<lparr>cell = ?zero, nextAddr = 1\<rparr>
     = (\<lparr>syncAccumulator.current = 0, snapshot = 12, output = 0\<rparr>,
        \<lparr>cell = ?zero(0 := 12), nextAddr = 1\<rparr>)"
    by (simp add: sum_Methods_def syncAccumulator_Update_def syncAccumulator_Accumulate_def)
  have col1:
    "statelessSyncProcess_Collect sum_Methods [?attrs] ?P1 \<lparr>Start = 0, Last = 0, Now = 1\<rparr> []
       \<lparr>cell = ?zero(0 := 12), nextAddr = 1\<rparr>
     = (?P1,
        [\<lparr>Instrument = ?D, Temporality = DeltaTemporality,
          Series = [\<lparr>Attributes = ?attrs, Aggregation = 1, StartTime = 0, EndTime = 1\<rparr>]\<rparr>],
        \<lparr>cell = ?zero, nextAddr = 2\<rparr>)"
    by (simp add: statelessSyncProcess_Collect_def call1_def call2_def appendSeries_def
        newStorage_def alloc_def sum_Methods_def fun_upd_idem)
  have acc2:
    "syncAccumulator_Accumulate sum_Methods
       (syncAccumulator_Update sum_Methods
          \<lparr>syncAccumulator.current = 0, snapshot = 12, output = 0\<rparr> 1)
       \<lparr>cell = ?zero, nextAddr = 2\<rparr>
     = (\<lparr>syncAccumulator.current = 0, snapshot = 1, output = 0\<rparr>,
        \<lparr>cell = ?zero(0 := 1), nextAddr = 2\<rparr>)"
    by (simp add: sum_Methods_def syncAccumulator_Update_def syncAccumulator_Accumulate_def)
  have col2:
    "statelessSyncProcess_Collect sum_Methods [?attrs] ?P1 \<lparr>Start = 0, Last = 1, Now = 2\<rparr> []
       \<lparr>cell = ?zero(0 := 1), nextAddr = 2\<rparr>
     = (?P1,
        [\<lparr>Instrument = ?D, Temporality = DeltaTemporality,
          Series = [\<lparr>Attributes = ?attrs, Aggregation = 2, StartTime = 1, EndTime = 2\<rparr>]\<rparr>],
        \<lparr>cell = ?zero, nextAddr = 3\<rparr>)"
    by (simp add: statelessSyncProcess_Collect_def call1_def call2_def appendSeries_def
        newStorage_def alloc_def sum_Methods_def fun_upd_idem)
  show ?thesis
    unfolding Let_def made fst_conv snd_conv acc1 col1 acc2 col2
    by (simp add: observedSeries_def seriesView_def syncAccumulator_Update_def)
qed

lemma distinctStorage_delete: "distinctStorage m \<Longrightarrow> distinctStorage (m(k := None))"
  unfolding distinctStorage_def by (metis fun_upd_apply option.distinct(1))

lemma allocated_delete: "allocated m h \<Longrightarrow> allocated (m(k := None)) h"
  unfolding allocated_def by (metis fun_upd_apply option.distinct(1))

lemma allocated_mono: "allocated m h \<Longrightarrow> nextAddr h \<le> nextAddr h' \<Longrightarrow> allocated m h'"
  unfolding allocated_def by (meson less_le_trans)

lemma statelessSync_range_effect:
  assumes "distinct ks" and "distinctStorage (data p)" and "allocated (data p) h"
  shows "fst (statelessSync_range m seq ks (p, out, h)) =
           p\<lparr>data := (\<lambda>k. if k \<in> set ks then withData m h (data p) k else data p k)\<rparr>
       \<and> nextAddr h \<le> nextAddr (snd (snd (statelessSync_range m seq ks (p, out, h))))
       \<and> (\<forall>a<nextAddr h. cell (snd (snd (statelessSync_range m seq ks (p, out, h)))) a =
            (if (\<exists>k\<in>set ks. data p k = Some a \<and> HasData m (cell h a))
             then Reset m (snd (Merge m (Init m (acfg p)) (cell h a)))
             else cell h a))"
  using assms
proof (induction ks arbitrary: p out h)
  case Nil
  then show ?case by simp
next
  case (Cons k ks)
  have dks: "distinct ks" and kks: "k \<notin> set ks" using Cons.prems(1) by auto
  note ds = Cons.prems(2) and al = Cons.prems(3)
  show ?case
  proof (cases "data p k")
    case None
    have eq: "(\<lambda>k'. if k' \<in> set (k # ks) then withData m h (data p) k' else data p k')
            = (\<lambda>k'. if k' \<in> set ks then withData m h (data p) k' else data p k')"
      using None by (auto simp: withData_def fun_eq_iff)
    have ex: "\<And>a. (\<exists>k'\<in>set (k # ks). data p k' = Some a \<and> HasData m (cell h a))
                = (\<exists>k'\<in>set ks. data p k' = Some a \<and> HasData m (cell h a))"
      using None by auto
    from Cons.IH[OF dks ds al, of out] None show ?thesis
      unfolding eq ex by simp
  next
    case (Some a)
    have a_lt: "a < nextAddr h" using al Some by (simp add: allocated_def)
    have others: "\<And>k' a'. k' \<in> set ks \<Longrightarrow> data p k' = Some a' \<Longrightarrow> a' \<noteq> a"
      using ds Some kks unfolding distinctStorage_def by blast
    show ?thesis
    proof (cases "HasData m (cell h a)")
      case False
      let ?p1 = "p\<lparr>data := (data p)(k := None)\<rparr>"
      have step: "statelessSync_range m seq (k # ks) (p, out, h)
                = statelessSync_range m seq ks (?p1, out, h)"
        using Some False by simp
      have ds1: "distinctStorage (data ?p1)" using ds by (simp add: distinctStorage_delete)
      have al1: "allocated (data ?p1) h" using al by (simp add: allocated_delete)
      have eq: "(\<lambda>k'. if k' \<in> set ks then withData m h (data ?p1) k' else data ?p1 k')
              = (\<lambda>k'. if k' \<in> set (k # ks) then withData m h (data p) k' else data p k')"
        using Some False kks by (auto simp: withData_def fun_eq_iff)
      have ex: "\<And>a'. (\<exists>k'\<in>set ks. data ?p1 k' = Some a' \<and> HasData m (cell h a'))
                  = (\<exists>k'\<in>set (k # ks). data p k' = Some a' \<and> HasData m (cell h a'))"
        using Some False kks by auto
      from Cons.IH[OF dks ds1 al1, of out] show ?thesis
        unfolding step eq ex by simp
    next
      case True
      let ?ns = "nextAddr h"
      let ?r = "Merge m (Init m (acfg p)) (cell h a)"
      let ?h3 = "\<lparr>cell = (cell h)(?ns := fst ?r, a := Reset m (snd ?r)), nextAddr = Suc ?ns\<rparr>"
      let ?s = "\<lparr>Attributes = k, Aggregation = ?ns, StartTime = Last seq, EndTime = Now seq\<rparr>"
      have h3: "call1 (Reset m) a (call2 (Merge m) ?ns a (snd (newStorage m p h))) = ?h3"
        using a_lt by (simp add: call1_def call2_def newStorage_def alloc_def Let_def fun_upd_twist)
      have step: "statelessSync_range m seq (k # ks) (p, out, h)
                = statelessSync_range m seq ks (p, appendSeries out ?s, ?h3)"
        using Some True h3 by (simp add: Let_def newStorage_def alloc_def)
      have al3: "allocated (data p) ?h3" using al by (rule allocated_mono) simp
      have same: "\<And>k' a'. k' \<in> set ks \<Longrightarrow> data p k' = Some a' \<Longrightarrow> cell ?h3 a' = cell h a'"
      proof -
        fix k' a' assume k': "k' \<in> set ks" and d: "data p k' = Some a'"
        have "a' \<noteq> a" using others[OF k' d] .
        moreover have "a' < ?ns" using al d by (simp add: allocated_def)
        ultimately show "cell ?h3 a' = cell h a'" by simp
      qed
      have eq: "(\<lambda>k'. if k' \<in> set ks then withData m ?h3 (data p) k' else data p k')
              = (\<lambda>k'. if k' \<in> set (k # ks) then withData m h (data p) k' else data p k')"
      proof (rule ext)
        fix k'
        show "(if k' \<in> set ks then withData m ?h3 (data p) k' else data p k')
            = (if k' \<in> set (k # ks) then withData m h (data p) k' else data p k')"
        proof (cases "k' \<in> set ks")
          case True
          then show ?thesis using same[OF True] by (cases "data p k'") (simp_all add: withData_def)
        next
          case False
          then show ?thesis using Some \<open>HasData m (cell h a)\<close> by (simp add: withData_def)
        qed
      qed
      have cells: "\<forall>a'<nextAddr h.
            (if (\<exists>k'\<in>set ks. data p k' = Some a' \<and> HasData m (cell ?h3 a'))
             then Reset m (snd (Merge m (Init m (acfg p)) (cell ?h3 a')))
             else cell ?h3 a')
          = (if (\<exists>k'\<in>set (k # ks). data p k' = Some a' \<and> HasData m (cell h a'))
             then Reset m (snd (Merge m (Init m (acfg p)) (cell h a')))
             else cell h a')"
      proof (intro allI impI)
        fix a' assume lt: "a' < nextAddr h"
        show "(if (\<exists>k'\<in>set ks. data p k' = Some a' \<and> HasData m (cell ?h3 a'))
             then Reset m (snd (Merge m (Init m (acfg p)) (cell ?h3 a')))
             else cell ?h3 a')
          = (if (\<exists>k'\<in>set (k # ks). data p k' = Some a' \<and> HasData m (cell h a'))
             then Reset m (snd (Merge m (Init m (acfg p)) (cell h a')))
             else cell h a')"
        proof (cases "a' = a")
          case True
          have "\<not> (\<exists>k'\<in>set ks. data p k' = Some a')" using others True by blast
          then show ?thesis using True Some \<open>HasData m (cell h a)\<close> by simp
        next
          case False
          have c: "cell ?h3 a' = cell h a'" using False lt by simp
          have "(\<exists>k'\<in>set (k # ks). data p k' = Some a' \<and> HasData m (cell h a'))
              = (\<exists>k'\<in>set ks. data p k' = Some a' \<and> HasData m (cell h a'))"
            using Some False by auto
          then show ?thesis unfolding c by simp
        qed
      qed
      from Cons.IH[OF dks ds al3, of "appendSeries out ?s"] show ?thesis
        unfolding step eq using cells by auto
    qed
  qed
qed

lemma findOutput_wellformed:
  assumes "distinctStorage (data p)" and "allocated (data p) h"
  shows "distinctStorage (data (fst (snd (findOutput m mk p kvs h))))
       \<and> allocated (data (fst (snd (findOutput m mk p kvs h)))) (snd (snd (findOutput m mk p kvs h)))
       \<and> data (fst (snd (findOutput m mk p kvs h))) (mk kvs (keys p))
           = Some (fst (findOutput m mk p kvs h))
       \<and> nextAddr h \<le> nextAddr (snd (snd (findOutput m mk p kvs h)))"
proof (cases "data p (mk kvs (keys p))")
  case None
  have "\<And>k a. data p k = Some a \<Longrightarrow> a < nextAddr h" using assms(2) by (simp add: allocated_def)
  then show ?thesis
    using None assms(1)
    by (auto simp: findOutput_def newStorage_def alloc_def Let_def distinctStorage_def
        allocated_def less_Suc_eq)
next
  case (Some a)
  then show ?thesis using assms by (simp add: findOutput_def Let_def)
qed

text \<open>
  C9. After a delta collection of a synchronous instrument, the data map holds exactly
  the attribute sets whose cells had data when the collection started, each with the
  storage it had; the sets whose cells had no data are gone. The storage of every set
  that remains was last written by \<open>Reset\<close>. The pipeline is well formed (no two sets
  share a storage, every storage is allocated) and \<open>order\<close> visits every key once.
\<close>

theorem C9_delta_sync_sweep:
  assumes "rangeOrder order (data p)"
    and "distinctStorage (data p)"
    and "allocated (data p) h"
  shows "data (fst (statelessSyncProcess_Collect methods order p seq out h))
           = withData methods h (data p)
       \<and> (\<forall>k a. withData methods h (data p) k = Some a \<longrightarrow>
              cell (snd (snd (statelessSyncProcess_Collect methods order p seq out h))) a
                = Reset methods (snd (Merge methods (Init methods (acfg p)) (cell h a))))"
proof -
  let ?out = "out @ [\<lparr>Instrument = desc p, Temporality = DeltaTemporality, Series = []\<rparr>]"
  let ?R = "statelessSync_range methods seq order (p, ?out, h)"
  have dist: "distinct order" and dom: "set order = dom (data p)"
    using assms(1) by (simp_all add: rangeOrder_def)
  note eff = statelessSync_range_effect[OF dist assms(2) assms(3), of methods seq ?out]
  have "(\<lambda>k. if k \<in> set order then withData methods h (data p) k else data p k)
      = withData methods h (data p)"
    using dom by (auto simp: fun_eq_iff withData_def domIff)
  then have d: "data (fst ?R) = withData methods h (data p)" using eff by simp
  have c: "cell (snd (snd ?R)) a = Reset methods (snd (Merge methods (Init methods (acfg p)) (cell h a)))"
    if "withData methods h (data p) k = Some a" for k a
  proof -
    from that have dk: "data p k = Some a" and hd: "HasData methods (cell h a)"
      by (auto simp: withData_def split: option.splits if_splits)
    have "k \<in> set order" using dk dom by auto
    moreover have "a < nextAddr h" using dk assms(3) by (simp add: allocated_def)
    ultimately show ?thesis using eff dk hd by auto
  qed
  show ?thesis unfolding statelessSyncProcess_Collect_def using d c by blast
qed

text \<open>
  A pipeline with \<open>{a:1}\<close> holding 12 and \<open>{a:2}\<close> holding nothing: after the collection
  \<open>{a:1}\<close> is still mapped to its storage, now reset, and \<open>{a:2}\<close> is gone.
\<close>

theorem C9_delta_sync_sweep_witness:
  "rangeOrder [[(''a'', ''1'')], [(''a'', ''2'')]] [[(''a'', ''1'')] \<mapsto> 0, [(''a'', ''2'')] \<mapsto> 1]
   \<and> distinctStorage [[(''a'', ''1'')] \<mapsto> (0::addr), [(''a'', ''2'')] \<mapsto> 1]
   \<and> allocated [[(''a'', ''1'')] \<mapsto> 0, [(''a'', ''2'')] \<mapsto> 1]
        \<lparr>cell = (\<lambda>a. 0 :: 64 word)(0 := 12), nextAddr = 2\<rparr>
   \<and> data (fst (statelessSyncProcess_Collect sum_Methods [[(''a'', ''1'')], [(''a'', ''2'')]]
         \<lparr>desc = \<lparr>Name = ''requests'', InstrumentKind = CounterKind, NumberKind = Int64Kind,
                  Description = '''', Unit = ''1''\<rparr>,
          acfg = \<lparr>Histogram = ZeroConfig\<rparr>,
          data = [[(''a'', ''1'')] \<mapsto> 0, [(''a'', ''2'')] \<mapsto> 1], keys = None\<rparr>
         \<lparr>Start = 0, Last = 1, Now = 2\<rparr> [] \<lparr>cell = (\<lambda>a. 0)(0 := 12), nextAddr = 2\<rparr>))
       = [[(''a'', ''1'')] \<mapsto> 0]
   \<and> cell (snd (snd (statelessSyncProcess_Collect sum_Methods [[(''a'', ''1'')], [(''a'', ''2'')]]
         \<lparr>desc = \<lparr>Name = ''requests'', InstrumentKind = CounterKind, NumberKind = Int64Kind,
                  Description = '''', Unit = ''1''\<rparr>,
          acfg = \<lparr>Histogram = ZeroConfig\<rparr>,
          data = [[(''a'', ''1'')] \<mapsto> 0, [(''a'', ''2'')] \<mapsto> 1], keys = None\<rparr>
         \<lparr>Start = 0, Last = 1, Now = 2\<rparr> [] \<lparr>cell = (\<lambda>a. 0)(0 := 12), nextAddr = 2\<rparr>))) 0
       = 0"
proof -
  let ?A = "[(''a'', ''1'')] :: attribute_KeyValue list"
  let ?B = "[(''a'', ''2'')] :: attribute_KeyValue list"
  let ?m = "[?A \<mapsto> (0::addr), ?B \<mapsto> 1]"
  let ?h = "\<lparr>cell = (\<lambda>a. 0 :: 64 word)(0 := 12), nextAddr = 2\<rparr>"
  let ?p = "\<lparr>desc = \<lparr>Name = ''requests'', InstrumentKind = CounterKind, NumberKind = Int64Kind,
                     Description = '''', Unit = ''1''\<rparr>,
             acfg = \<lparr>Histogram = ZeroConfig\<rparr>, data = ?m, keys = None\<rparr>"
  have h1: "rangeOrder [?A, ?B] ?m" by (auto simp: rangeOrder_def)
  have h2: "distinctStorage ?m" by (auto simp: distinctStorage_def split: if_splits)
  have h3: "allocated ?m ?h" by (auto simp: allocated_def split: if_splits)
  have w: "withData sum_Methods ?h ?m = [?A \<mapsto> 0]"
    by (auto simp: withData_def sum_Methods_def fun_eq_iff)
  have h1': "rangeOrder [?A, ?B] (data ?p)" and h2': "distinctStorage (data ?p)"
    and h3': "allocated (data ?p) ?h"
    using h1 h2 h3 by simp_all
  from C9_delta_sync_sweep[OF h1' h2' h3', of sum_Methods "\<lparr>Start = 0, Last = 1, Now = 2\<rparr>" "[]"]
  have "data (fst (statelessSyncProcess_Collect sum_Methods [?A, ?B] ?p
                \<lparr>Start = 0, Last = 1, Now = 2\<rparr> [] ?h)) = [?A \<mapsto> 0]"
    and "cell (snd (snd (statelessSyncProcess_Collect sum_Methods [?A, ?B] ?p
                \<lparr>Start = 0, Last = 1, Now = 2\<rparr> [] ?h))) 0 = 0"
    using w by (simp_all add: sum_Methods_def)
  with h1 h2 h3 show ?thesis by blast
qed

section \<open>Properties of the cumulative-to-delta pipeline of an asynchronous instrument\<close>

lemma appendSeries_last: "appendSeries (out @ [i]) s = out @ [i\<lparr>Series := Series i @ [s]\<rparr>]"
  by (simp add: appendSeries_def)

lemma statefulAsync_range_frame:
  assumes "keepsOperand (SubtractSwap m)"
  shows "nextAddr (snd (statefulAsync_range m seq p ks (out, h))) = nextAddr h
       \<and> (\<forall>a. (\<forall>k\<in>set ks. prior p k \<noteq> Some a) \<longrightarrow>
              cell (snd (statefulAsync_range m seq p ks (out, h))) a = cell h a)"
proof (induction ks arbitrary: out h)
  case Nil
  show ?case by simp
next
  case (Cons k ks)
  show ?case
  proof (cases "data p k")
    case None
    then show ?thesis using Cons.IH[of out h] by simp
  next
    case (Some st)
    show ?thesis
    proof (cases "prior p k")
      case None
      then show ?thesis using Some Cons.IH by simp
    next
      case pv: (Some pv)
      let ?h1 = "call2 (SubtractSwap m) st pv h"
      have n1: "nextAddr ?h1 = nextAddr h" by (simp add: call2_def Let_def)
      have c1: "\<And>a. a \<noteq> pv \<Longrightarrow> cell ?h1 a = cell h a"
        using assms by (simp add: call2_def Let_def keepsOperand_def)
      have "\<exists>out'. statefulAsync_range m seq p (k # ks) (out, h)
                  = statefulAsync_range m seq p ks (out', ?h1)"
        using Some pv by (simp add: Let_def) blast
      then obtain out' where step: "statefulAsync_range m seq p (k # ks) (out, h)
                  = statefulAsync_range m seq p ks (out', ?h1)" by blast
      show ?thesis unfolding step using Cons.IH[of out' ?h1] n1 c1 pv by auto
    qed
  qed
qed


lemma deltaSeries_cong:
  assumes "\<And>a. data p k = Some a \<Longrightarrow> cell h' a = cell h a"
    and "\<And>a. prior p k = Some a \<Longrightarrow> cell h' a = cell h a"
  shows "deltaSeries m p h' seq k = deltaSeries m p h seq k"
  using assms by (auto simp: deltaSeries_def Let_def split: option.splits)

lemma statefulAsync_range_series:
  assumes ko: "keepsOperand (SubtractSwap m)"
    and dist: "distinct ks"
    and ds: "distinctStorage (prior p)"
    and dj: "disjointStorage (data p) (prior p)"
  shows "\<exists>ss. fst (statefulAsync_range m seq p ks (out @ [i], h)) = out @ [i\<lparr>Series := Series i @ ss\<rparr>]
            \<and> map (seriesView (snd (statefulAsync_range m seq p ks (out @ [i], h)))) ss
              = concat (map (deltaSeries m p h seq) ks)"
  using dist
proof (induction ks arbitrary: i h)
  case Nil
  show ?case by simp
next
  case (Cons k ks)
  have dks: "distinct ks" and kks: "k \<notin> set ks" using Cons.prems by auto
  show ?case
  proof (cases "data p k")
    case None
    obtain ss where ss: "fst (statefulAsync_range m seq p ks (out @ [i], h)) = out @ [i\<lparr>Series := Series i @ ss\<rparr>]"
      "map (seriesView (snd (statefulAsync_range m seq p ks (out @ [i], h)))) ss
              = concat (map (deltaSeries m p h seq) ks)"
      using Cons.IH[OF dks, of i h] by blast
    have "deltaSeries m p h seq k = []" using None by (simp add: deltaSeries_def)
    then show ?thesis using None ss by auto
  next
    case (Some st)
    show ?thesis
    proof (cases "prior p k")
      case None
      let ?s = "\<lparr>Attributes = k, Aggregation = st, StartTime = Start seq, EndTime = Now seq\<rparr>"
      let ?i1 = "i\<lparr>Series := Series i @ [?s]\<rparr>"
      let ?R = "statefulAsync_range m seq p ks (out @ [?i1], h)"
      have step: "statefulAsync_range m seq p (k # ks) (out @ [i], h) = ?R"
        using Some None by (simp add: appendSeries_last)
      obtain ss where ss: "fst ?R = out @ [?i1\<lparr>Series := Series ?i1 @ ss\<rparr>]"
        "map (seriesView (snd ?R)) ss = concat (map (deltaSeries m p h seq) ks)"
        using Cons.IH[OF dks, of ?i1 h] by blast
      have "\<forall>k'\<in>set ks. prior p k' \<noteq> Some st"
        using dj Some unfolding disjointStorage_def by blast
      then have keep: "cell (snd ?R) st = cell h st"
        using statefulAsync_range_frame[OF ko, where seq=seq and p=p and ks=ks and out="out @ [?i1]" and h=h] by blast
      have dk: "deltaSeries m p h seq k = [(k, cell h st, Start seq, Now seq)]"
        using Some None by (simp add: deltaSeries_def)
      have "fst ?R = out @ [i\<lparr>Series := Series i @ (?s # ss)\<rparr>]" using ss(1) by simp
      moreover have "map (seriesView (snd ?R)) (?s # ss) = concat (map (deltaSeries m p h seq) (k # ks))"
        using ss(2) dk keep by (simp add: seriesView_def)
      ultimately show ?thesis unfolding step by blast
    next
      case pv: (Some pv)
      let ?h1 = "call2 (SubtractSwap m) st pv h"
      let ?r = "SubtractSwap m (cell h st) (cell h pv)"
      have stpv: "st \<noteq> pv" using dj Some pv unfolding disjointStorage_def by blast
      have c_pv: "cell ?h1 pv = snd ?r" by (simp add: call2_def Let_def)
      have c_other: "\<And>a. a \<noteq> pv \<Longrightarrow> cell ?h1 a = cell h a"
        using ko by (simp add: call2_def Let_def keepsOperand_def)
      have same: "\<And>k'. k' \<in> set ks \<Longrightarrow> deltaSeries m p ?h1 seq k' = deltaSeries m p h seq k'"
      proof (rule deltaSeries_cong)
        fix k' a assume k': "k' \<in> set ks"
        { assume "data p k' = Some a"
          then have "a \<noteq> pv" using dj pv unfolding disjointStorage_def by blast
          then show "cell ?h1 a = cell h a" by (rule c_other) }
        { assume "prior p k' = Some a"
          then have "a \<noteq> pv" using ds pv k' kks unfolding distinctStorage_def by blast
          then show "cell ?h1 a = cell h a" by (rule c_other) }
      qed
      then have sameall: "concat (map (deltaSeries m p ?h1 seq) ks) = concat (map (deltaSeries m p h seq) ks)"
        by (simp cong: map_cong)
      have nopv: "\<forall>k'\<in>set ks. prior p k' \<noteq> Some pv"
        using ds pv kks unfolding distinctStorage_def by blast
      have nost: "\<forall>k'\<in>set ks. prior p k' \<noteq> Some st"
        using dj Some unfolding disjointStorage_def by blast
      show ?thesis
      proof (cases "HasData m (snd ?r)")
        case False
        let ?R = "statefulAsync_range m seq p ks (out @ [i], ?h1)"
        have step: "statefulAsync_range m seq p (k # ks) (out @ [i], h) = ?R"
          using Some pv False c_pv by (simp add: Let_def)
        obtain ss where ss: "fst ?R = out @ [i\<lparr>Series := Series i @ ss\<rparr>]"
          "map (seriesView (snd ?R)) ss = concat (map (deltaSeries m p ?h1 seq) ks)"
          using Cons.IH[OF dks, of i ?h1] by blast
        have dk: "deltaSeries m p h seq k = []"
          using Some pv False by (simp add: deltaSeries_def Let_def)
        show ?thesis unfolding step using ss dk sameall by auto
      next
        case True
        let ?a = "if HasTemporality (InstrumentKind (desc p)) then pv else st"
        let ?s = "\<lparr>Attributes = k, Aggregation = ?a, StartTime = Start seq, EndTime = Now seq\<rparr>"
        let ?i1 = "i\<lparr>Series := Series i @ [?s]\<rparr>"
        let ?R = "statefulAsync_range m seq p ks (out @ [?i1], ?h1)"
        have step: "statefulAsync_range m seq p (k # ks) (out @ [i], h) = ?R"
          using Some pv True c_pv by (simp add: Let_def appendSeries_last)
        obtain ss where ss: "fst ?R = out @ [?i1\<lparr>Series := Series ?i1 @ ss\<rparr>]"
          "map (seriesView (snd ?R)) ss = concat (map (deltaSeries m p ?h1 seq) ks)"
          using Cons.IH[OF dks, of ?i1 ?h1] by blast
        have keep: "cell (snd ?R) ?a = cell ?h1 ?a"
          using statefulAsync_range_frame[OF ko, where seq=seq and p=p and ks=ks and out="out @ [?i1]" and h="?h1"] nopv nost
          by (cases "HasTemporality (InstrumentKind (desc p))") auto
        have val: "cell ?h1 ?a = (if HasTemporality (InstrumentKind (desc p)) then snd ?r else cell h st)"
          using c_pv c_other[OF stpv] by simp
        have dk: "deltaSeries m p h seq k
                = [(k, if HasTemporality (InstrumentKind (desc p)) then snd ?r else cell h st,
                    Start seq, Now seq)]"
          using Some pv True by (simp add: deltaSeries_def Let_def)
        have "fst ?R = out @ [i\<lparr>Series := Series i @ (?s # ss)\<rparr>]" using ss(1) by simp
        moreover have "map (seriesView (snd ?R)) (?s # ss)
                     = concat (map (deltaSeries m p h seq) (k # ks))"
          using ss(2) dk keep val sameall by (simp add: seriesView_def)
        ultimately show ?thesis unfolding step by blast
      qed
    qed
  qed
qed

text \<open>
  C2. A cumulative-to-delta collection appends one instrument of delta temporality
  whose series, read through the store when \<^verbatim>\<open>Collect\<close> returns, are those of
  \<open>deltaSeries\<close> for the attribute sets of the current map, in the order of the visit:
  with a prior entry the difference \<open>SubtractSwap\<close> left in it, skipped when it has no
  data and replaced by the new cumulative value for a gauge; without a prior entry
  the cumulative value; always from \<open>seq.Start\<close> to \<open>seq.Now\<close>. \<open>SubtractSwap\<close> writes
  its second argument only, no storage is shared between two prior entries or between
  the current and the prior map, and \<open>order\<close> visits every key once.
\<close>

theorem C2_cumulative_to_delta_series:
  assumes "keepsOperand (SubtractSwap methods)"
    and "rangeOrder order (data p)"
    and "distinctStorage (prior p)"
    and "disjointStorage (data p) (prior p)"
  shows "\<exists>ss. fst (snd (statefulAsyncProcess_Collect methods order p seq out h))
               = out @ [\<lparr>Instrument = desc p, Temporality = DeltaTemporality, Series = ss\<rparr>]
            \<and> map (seriesView (snd (snd (statefulAsyncProcess_Collect methods order p seq out h)))) ss
               = concat (map (deltaSeries methods p h seq) order)"
proof -
  let ?i = "\<lparr>Instrument = desc p, Temporality = DeltaTemporality, Series = []\<rparr>"
  have dist: "distinct order" using assms(2) by (simp add: rangeOrder_def)
  obtain ss where
    "fst (statefulAsync_range methods seq p order (out @ [?i], h)) = out @ [?i\<lparr>Series := Series ?i @ ss\<rparr>]"
    "map (seriesView (snd (statefulAsync_range methods seq p order (out @ [?i], h)))) ss
       = concat (map (deltaSeries methods p h seq) order)"
    using statefulAsync_range_series[OF assms(1) dist assms(3) assms(4), of seq out ?i h] by blast
  then show ?thesis by (simp add: statefulAsyncProcess_Collect_def Let_def)
qed

text \<open>
  A counter observer that reported 100 on \<open>{a:1}\<close> at the last collection and now holds
  140 on \<open>{a:1}\<close> and 7 on the new set \<open>{a:2}\<close>: the collection emits the difference 40
  and the cumulative value 7.
\<close>

theorem C2_cumulative_to_delta_series_witness:
  "keepsOperand (SubtractSwap sum_Methods)
   \<and> rangeOrder [[(''a'', ''1'')], [(''a'', ''2'')]] [[(''a'', ''1'')] \<mapsto> 1, [(''a'', ''2'')] \<mapsto> 2]
   \<and> distinctStorage [[(''a'', ''1'')] \<mapsto> (0::addr)]
   \<and> disjointStorage [[(''a'', ''1'')] \<mapsto> 1, [(''a'', ''2'')] \<mapsto> 2] [[(''a'', ''1'')] \<mapsto> (0::addr)]
   \<and> (\<exists>ss. fst (snd (statefulAsyncProcess_Collect sum_Methods [[(''a'', ''1'')], [(''a'', ''2'')]]
            \<lparr>desc = \<lparr>Name = ''queue'', InstrumentKind = CounterObserverKind,
                     NumberKind = Int64Kind, Description = '''', Unit = ''1''\<rparr>,
             acfg = \<lparr>Histogram = ZeroConfig\<rparr>,
             data = [[(''a'', ''1'')] \<mapsto> 1, [(''a'', ''2'')] \<mapsto> 2], keys = None,
             prior = [[(''a'', ''1'')] \<mapsto> 0]\<rparr>
            \<lparr>Start = 0, Last = 1, Now = 2\<rparr> []
            \<lparr>cell = (\<lambda>a. 0)(0 := 100, 1 := 140, 2 := 7), nextAddr = 3\<rparr>))
          = [\<lparr>Instrument = \<lparr>Name = ''queue'', InstrumentKind = CounterObserverKind,
                            NumberKind = Int64Kind, Description = '''', Unit = ''1''\<rparr>,
              Temporality = DeltaTemporality, Series = ss\<rparr>]
        \<and> map (seriesView (snd (snd (statefulAsyncProcess_Collect sum_Methods
                 [[(''a'', ''1'')], [(''a'', ''2'')]]
                 \<lparr>desc = \<lparr>Name = ''queue'', InstrumentKind = CounterObserverKind,
                          NumberKind = Int64Kind, Description = '''', Unit = ''1''\<rparr>,
                  acfg = \<lparr>Histogram = ZeroConfig\<rparr>,
                  data = [[(''a'', ''1'')] \<mapsto> 1, [(''a'', ''2'')] \<mapsto> 2], keys = None,
                  prior = [[(''a'', ''1'')] \<mapsto> 0]\<rparr>
                 \<lparr>Start = 0, Last = 1, Now = 2\<rparr> []
                 \<lparr>cell = (\<lambda>a. 0)(0 := 100, 1 := 140, 2 := 7), nextAddr = 3\<rparr>)))) ss
          = [([(''a'', ''1'')], 40, 0, 2), ([(''a'', ''2'')], 7, 0, 2)])"
proof -
  let ?A = "[(''a'', ''1'')] :: attribute_KeyValue list"
  let ?B = "[(''a'', ''2'')] :: attribute_KeyValue list"
  let ?d = "[?A \<mapsto> (1::addr), ?B \<mapsto> 2]"
  let ?pr = "[?A \<mapsto> (0::addr)]"
  let ?h = "\<lparr>cell = (\<lambda>a. 0 :: 64 word)(0 := 100, 1 := 140, 2 := 7), nextAddr = 3\<rparr>"
  let ?p = "\<lparr>desc = \<lparr>Name = ''queue'', InstrumentKind = CounterObserverKind,
                     NumberKind = Int64Kind, Description = '''', Unit = ''1''\<rparr>,
             acfg = \<lparr>Histogram = ZeroConfig\<rparr>, data = ?d, keys = None, prior = ?pr\<rparr>"
  let ?seq = "\<lparr>Start = 0, Last = 1, Now = 2\<rparr>"
  have h1: "keepsOperand (SubtractSwap sum_Methods)"
    by (simp add: keepsOperand_def sum_Methods_def)
  have h2: "rangeOrder [?A, ?B] ?d" by (auto simp: rangeOrder_def)
  have h3: "distinctStorage ?pr" by (auto simp: distinctStorage_def split: if_splits)
  have h4: "disjointStorage ?d ?pr" by (auto simp: disjointStorage_def split: if_splits)
  have e: "concat (map (deltaSeries sum_Methods ?p ?h ?seq) [?A, ?B])
         = [(?A, 40, 0, 2), (?B, 7, 0, 2)]"
    by (simp add: deltaSeries_def sum_Methods_def)
  have h2': "rangeOrder [?A, ?B] (data ?p)" and h3': "distinctStorage (prior ?p)"
    and h4': "disjointStorage (data ?p) (prior ?p)"
    using h2 h3 h4 by simp_all
  from C2_cumulative_to_delta_series[OF h1 h2' h3' h4', of ?seq "[]" ?h]
  have "\<exists>ss. fst (snd (statefulAsyncProcess_Collect sum_Methods [?A, ?B] ?p ?seq [] ?h))
               = [\<lparr>Instrument = desc ?p, Temporality = DeltaTemporality, Series = ss\<rparr>]
            \<and> map (seriesView (snd (snd (statefulAsyncProcess_Collect sum_Methods [?A, ?B] ?p ?seq [] ?h)))) ss
               = [(?A, 40, 0, 2), (?B, 7, 0, 2)]"
    unfolding e by simp
  then have "\<exists>ss. fst (snd (statefulAsyncProcess_Collect sum_Methods [?A, ?B] ?p ?seq [] ?h))
               = [\<lparr>Instrument = \<lparr>Name = ''queue'', InstrumentKind = CounterObserverKind,
                     NumberKind = Int64Kind, Description = '''', Unit = ''1''\<rparr>,
                   Temporality = DeltaTemporality, Series = ss\<rparr>]
            \<and> map (seriesView (snd (snd (statefulAsyncProcess_Collect sum_Methods [?A, ?B] ?p ?seq [] ?h)))) ss
               = [(?A, 40, 0, 2), (?B, 7, 0, 2)]"
    by simp
  with h1 h2 h3 h4 show ?thesis by blast
qed

text \<open>
  C3. When a cumulative-to-delta \<^verbatim>\<open>Collect\<close> returns, the prior map is the current map
  it was called with, the current map is empty, and every storage of that map holds
  the cumulative value it held when \<^verbatim>\<open>Collect\<close> started. \<open>SubtractSwap\<close> writes its
  second argument only, and no storage of the current map is a storage of the prior
  map.
\<close>

theorem C3_prior_is_observed_current:
  assumes "keepsOperand (SubtractSwap methods)"
    and "disjointStorage (data p) (prior p)"
  shows "prior (fst (statefulAsyncProcess_Collect methods order p seq out h)) = data p
       \<and> data (fst (statefulAsyncProcess_Collect methods order p seq out h)) = Map.empty
       \<and> (\<forall>k a. data p k = Some a \<longrightarrow>
              cell (snd (snd (statefulAsyncProcess_Collect methods order p seq out h))) a
                = cell h a)"
proof -
  let ?out = "out @ [\<lparr>Instrument = desc p, Temporality = DeltaTemporality, Series = []\<rparr>]"
  have "cell (snd (statefulAsync_range methods seq p order (?out, h))) a = cell h a"
    if "data p k = Some a" for k a
  proof -
    have "\<forall>k'\<in>set order. prior p k' \<noteq> Some a"
      using that assms(2) unfolding disjointStorage_def by blast
    then show ?thesis
      using statefulAsync_range_frame[OF assms(1), where seq=seq and p=p and ks=order
          and out="?out" and h=h]
      by blast
  qed
  then show ?thesis by (simp add: statefulAsyncProcess_Collect_def Let_def)
qed

text \<open>
  The same collection: afterwards \<open>prior\<close> maps \<open>{a:1}\<close> and \<open>{a:2}\<close> to the storages that
  still hold 140 and 7, and the current map has no entry.
\<close>

theorem C3_prior_is_observed_current_witness:
  "keepsOperand (SubtractSwap sum_Methods)
   \<and> disjointStorage [[(''a'', ''1'')] \<mapsto> 1, [(''a'', ''2'')] \<mapsto> 2] [[(''a'', ''1'')] \<mapsto> (0::addr)]
   \<and> prior (fst (statefulAsyncProcess_Collect sum_Methods [[(''a'', ''1'')], [(''a'', ''2'')]]
         \<lparr>desc = \<lparr>Name = ''queue'', InstrumentKind = CounterObserverKind,
                  NumberKind = Int64Kind, Description = '''', Unit = ''1''\<rparr>,
          acfg = \<lparr>Histogram = ZeroConfig\<rparr>,
          data = [[(''a'', ''1'')] \<mapsto> 1, [(''a'', ''2'')] \<mapsto> 2], keys = None,
          prior = [[(''a'', ''1'')] \<mapsto> 0]\<rparr>
         \<lparr>Start = 0, Last = 1, Now = 2\<rparr> []
         \<lparr>cell = (\<lambda>a. 0)(0 := 100, 1 := 140, 2 := 7), nextAddr = 3\<rparr>))
       = [[(''a'', ''1'')] \<mapsto> 1, [(''a'', ''2'')] \<mapsto> 2]
   \<and> data (fst (statefulAsyncProcess_Collect sum_Methods [[(''a'', ''1'')], [(''a'', ''2'')]]
         \<lparr>desc = \<lparr>Name = ''queue'', InstrumentKind = CounterObserverKind,
                  NumberKind = Int64Kind, Description = '''', Unit = ''1''\<rparr>,
          acfg = \<lparr>Histogram = ZeroConfig\<rparr>,
          data = [[(''a'', ''1'')] \<mapsto> 1, [(''a'', ''2'')] \<mapsto> 2], keys = None,
          prior = [[(''a'', ''1'')] \<mapsto> 0]\<rparr>
         \<lparr>Start = 0, Last = 1, Now = 2\<rparr> []
         \<lparr>cell = (\<lambda>a. 0)(0 := 100, 1 := 140, 2 := 7), nextAddr = 3\<rparr>))
       = Map.empty
   \<and> cell (snd (snd (statefulAsyncProcess_Collect sum_Methods [[(''a'', ''1'')], [(''a'', ''2'')]]
         \<lparr>desc = \<lparr>Name = ''queue'', InstrumentKind = CounterObserverKind,
                  NumberKind = Int64Kind, Description = '''', Unit = ''1''\<rparr>,
          acfg = \<lparr>Histogram = ZeroConfig\<rparr>,
          data = [[(''a'', ''1'')] \<mapsto> 1, [(''a'', ''2'')] \<mapsto> 2], keys = None,
          prior = [[(''a'', ''1'')] \<mapsto> 0]\<rparr>
         \<lparr>Start = 0, Last = 1, Now = 2\<rparr> []
         \<lparr>cell = (\<lambda>a. 0)(0 := 100, 1 := 140, 2 := 7), nextAddr = 3\<rparr>))) 1
       = 140
   \<and> cell (snd (snd (statefulAsyncProcess_Collect sum_Methods [[(''a'', ''1'')], [(''a'', ''2'')]]
         \<lparr>desc = \<lparr>Name = ''queue'', InstrumentKind = CounterObserverKind,
                  NumberKind = Int64Kind, Description = '''', Unit = ''1''\<rparr>,
          acfg = \<lparr>Histogram = ZeroConfig\<rparr>,
          data = [[(''a'', ''1'')] \<mapsto> 1, [(''a'', ''2'')] \<mapsto> 2], keys = None,
          prior = [[(''a'', ''1'')] \<mapsto> 0]\<rparr>
         \<lparr>Start = 0, Last = 1, Now = 2\<rparr> []
         \<lparr>cell = (\<lambda>a. 0)(0 := 100, 1 := 140, 2 := 7), nextAddr = 3\<rparr>))) 2
       = 7"
proof -
  let ?A = "[(''a'', ''1'')] :: attribute_KeyValue list"
  let ?B = "[(''a'', ''2'')] :: attribute_KeyValue list"
  let ?d = "[?A \<mapsto> (1::addr), ?B \<mapsto> 2]"
  let ?pr = "[?A \<mapsto> (0::addr)]"
  let ?h = "\<lparr>cell = (\<lambda>a. 0 :: 64 word)(0 := 100, 1 := 140, 2 := 7), nextAddr = 3\<rparr>"
  let ?p = "\<lparr>desc = \<lparr>Name = ''queue'', InstrumentKind = CounterObserverKind,
                     NumberKind = Int64Kind, Description = '''', Unit = ''1''\<rparr>,
             acfg = \<lparr>Histogram = ZeroConfig\<rparr>, data = ?d, keys = None, prior = ?pr\<rparr>"
  let ?seq = "\<lparr>Start = 0, Last = 1, Now = 2\<rparr>"
  let ?R = "statefulAsyncProcess_Collect sum_Methods [?A, ?B] ?p ?seq [] ?h"
  have h1: "keepsOperand (SubtractSwap sum_Methods)"
    by (simp add: keepsOperand_def sum_Methods_def)
  have h2: "disjointStorage ?d ?pr" by (auto simp: disjointStorage_def split: if_splits)
  have h2': "disjointStorage (data ?p) (prior ?p)" using h2 by simp
  note c3 = C3_prior_is_observed_current[OF h1 h2', of "[?A, ?B]" ?seq "[]" ?h]
  have a: "prior (fst ?R) = ?d" and b: "data (fst ?R) = Map.empty" using c3 by simp_all
  have dA: "data ?p ?A = Some 1" and dB: "data ?p ?B = Some 2" by simp_all
  have "cell (snd (snd ?R)) 1 = cell ?h 1" using c3 dA by blast
  then have c: "cell (snd (snd ?R)) 1 = 140" by simp
  have "cell (snd (snd ?R)) 2 = cell ?h 2" using c3 dB by blast
  then have d: "cell (snd (snd ?R)) 2 = 7" by simp
  from h1 h2 a b c d show ?thesis by blast
qed

section \<open>Properties of the view compiler\<close>

lemma firstRegistrations_Nil: "firstRegistrations N [] = []"
  by (simp add: firstRegistrations_def)

lemma firstRegistrations_Cons:
  "firstRegistrations N (c # cs) =
     (if behaviorName c \<in> N then firstRegistrations N cs
      else c # firstRegistrations (insert (behaviorName c) N) cs)"
proof -
  let ?P = "\<lambda>M xs j. behaviorName (xs ! j) \<notin> M \<and> (\<forall>i<j. behaviorName (xs ! i) \<noteq> behaviorName (xs ! j))"
  have up: "[0..<length (c # cs)] = 0 # map Suc [0..<length cs]"
    by (simp add: upt_conv_Cons map_Suc_upt del: upt_Suc)
  have shift: "?P N (c # cs) (Suc j) = ?P (insert (behaviorName c) N) cs j" for j
    by (auto simp: less_Suc_eq_0_disj)
  have tail: "map (\<lambda>j. (c # cs) ! j) (filter (?P N (c # cs)) (map Suc [0..<length cs]))
            = firstRegistrations (insert (behaviorName c) N) cs"
    unfolding firstRegistrations_def filter_map o_def shift by (simp add: o_def)
  show ?thesis
  proof (cases "behaviorName c \<in> N")
    case True
    then have "insert (behaviorName c) N = N" by auto
    with tail True show ?thesis
      unfolding firstRegistrations_def[of N "c # cs"] up by simp
  next
    case False
    with tail show ?thesis
      unfolding firstRegistrations_def[of N "c # cs"] up by simp
  qed
qed

lemma length_firstRegistrations: "length (firstRegistrations N cs) \<le> length cs"
  by (simp add: firstRegistrations_def order_trans[OF length_filter_le])

lemma firstRegistrations_names:
  "c \<in> set (firstRegistrations N cs) \<Longrightarrow> behaviorName c \<notin> N"
  by (auto simp: firstRegistrations_def)

lemma compileReaderList_eq:
  assumes "readerIdx < length ns"
  shows "compileReaderList readerIdx r cs (ns, compiled', errs) =
           Inr (ns[readerIdx := registeredNames (ns ! readerIdx) cs],
                fold (\<lambda>one c. appendCompiled c (ReaderAddr r) one)
                  (map buildOne (firstRegistrations (ns ! readerIdx) cs)) compiled',
                errs @ duplicateErrors (ns ! readerIdx) cs)"
  using assms
proof (induction cs arbitrary: ns compiled' errs)
  case Nil
  then show ?case
    by (simp add: registeredNames_def duplicateErrors_def firstRegistrations_Nil)
next
  case (Cons c cs)
  show ?case
  proof (cases "behaviorName c \<in> ns ! readerIdx")
    case True
    have reg: "registeredNames (ns ! readerIdx) (c # cs) = registeredNames (ns ! readerIdx) cs"
      using True by (auto simp: registeredNames_def)
    have dup: "duplicateErrors (ns ! readerIdx) (c # cs)
             = ''duplicate view name registered'' # duplicateErrors (ns ! readerIdx) cs"
      using True length_firstRegistrations[of "ns ! readerIdx" cs]
      by (simp add: duplicateErrors_def firstRegistrations_Cons Suc_diff_le)
    show ?thesis
      using True Cons.prems Cons.IH[OF Cons.prems, of compiled' "errs @ [''duplicate view name registered'']"]
      by (simp add: behaviorName_def[symmetric] reg dup firstRegistrations_Cons)
  next
    case False
    let ?ns1 = "ns[readerIdx := insert (behaviorName c) (ns ! readerIdx)]"
    have len1: "readerIdx < length ?ns1" using Cons.prems by simp
    have at1: "?ns1 ! readerIdx = insert (behaviorName c) (ns ! readerIdx)"
      using Cons.prems by simp
    have reg: "registeredNames (insert (behaviorName c) (ns ! readerIdx)) cs
             = registeredNames (ns ! readerIdx) (c # cs)"
      by (auto simp: registeredNames_def)
    have dup: "duplicateErrors (ns ! readerIdx) (c # cs)
             = duplicateErrors (insert (behaviorName c) (ns ! readerIdx)) cs"
      using False by (simp add: duplicateErrors_def firstRegistrations_Cons)
    show ?thesis
      using False Cons.prems
        Cons.IH[OF len1, of "appendCompiled compiled' (ReaderAddr r) (buildOne c)" errs]
      by (simp add: behaviorName_def[symmetric] at1 reg dup firstRegistrations_Cons Let_def)
  qed
qed

lemma appendCompiled_present:
  assumes "r \<notin> fst ` set compiled'"
  shows "appendCompiled (compiled' @ [(r, l)]) r one = compiled' @ [(r, l @ [one])]"
proof -
  have "map_of compiled' r = None" using assms by (simp add: map_of_eq_None_iff)
  then have "map_of (compiled' @ [(r, l)]) r = Some l" by (simp add: map_add_def)
  moreover have "map (\<lambda>e. if fst e = r then (r, snd e @ [one]) else e) compiled' = compiled'"
    using assms by (induction compiled') auto
  ultimately show ?thesis by (simp add: appendCompiled_def)
qed

lemma fold_appendCompiled_present:
  assumes "r \<notin> fst ` set compiled'"
  shows "fold (\<lambda>one c. appendCompiled c r one) ones (compiled' @ [(r, l)])
       = compiled' @ [(r, l @ ones)]"
  using assms by (induction ones arbitrary: l) (simp_all add: appendCompiled_present)

lemma fold_appendCompiled_fresh:
  assumes "r \<notin> fst ` set compiled'"
  shows "fold (\<lambda>one c. appendCompiled c r one) ones compiled'
       = compiled' @ filter (\<lambda>e. snd e \<noteq> []) [(r, ones)]"
proof (cases ones)
  case Nil
  then show ?thesis by simp
next
  case (Cons one rest)
  have "map_of compiled' r = None" using assms by (simp add: map_of_eq_None_iff)
  then have "appendCompiled compiled' r one = compiled' @ [(r, [one])]"
    by (simp add: appendCompiled_def)
  then show ?thesis using Cons fold_appendCompiled_present[OF assms, of rest "[one]"] by simp
qed


lemma compileLoop_eq:
  assumes "readerIdx + length configs = length rs"
    and "length ns = length rs"
    and "distinct (map ReaderAddr rs)"
    and "fst ` set compiled' \<subseteq> ReaderAddr ` set (take readerIdx rs)"
  shows "compileLoop rs readerIdx configs (ns, compiled', errs) =
           Inr (take readerIdx ns @
                  map (\<lambda>(N, cs). registeredNames N cs) (zip (drop readerIdx ns) configs),
                compiled' @
                  filter (\<lambda>e. snd e \<noteq> [])
                    (map (\<lambda>(r, N, cs). (ReaderAddr r, map buildOne (firstRegistrations N cs)))
                       (zip (drop readerIdx rs) (zip (drop readerIdx ns) configs))),
                errs @ concat (map (\<lambda>(N, cs). duplicateErrors N cs)
                                 (zip (drop readerIdx ns) configs)))"
  using assms
proof (induction configs arbitrary: readerIdx ns compiled' errs)
  case Nil
  then show ?case by simp
next
  case (Cons cl rest)
  have i_rs: "readerIdx < length rs" using Cons.prems(1) by simp
  have i_ns: "readerIdx < length ns" using i_rs Cons.prems(2) by simp
  let ?r = "rs ! readerIdx"
  let ?N = "ns ! readerIdx"
  let ?ns1 = "ns[readerIdx := registeredNames ?N cl]"
  let ?ones = "map buildOne (firstRegistrations ?N cl) :: 'a viewstate_Instrument list"
  let ?c1 = "compiled' @ filter (\<lambda>e. snd e \<noteq> []) [(ReaderAddr ?r, ?ones)]"
  let ?e1 = "errs @ duplicateErrors ?N cl"
  have d_rs: "drop readerIdx rs = ?r # drop (Suc readerIdx) rs"
    using i_rs by (simp add: Cons_nth_drop_Suc)
  have d_ns: "drop readerIdx ns = ?N # drop (Suc readerIdx) ns"
    using i_ns by (simp add: Cons_nth_drop_Suc)
  have t_rs: "take (Suc readerIdx) rs = take readerIdx rs @ [?r]"
    using i_rs by (simp add: take_Suc_conv_app_nth)
  have "ReaderAddr ?r \<notin> ReaderAddr ` set (take readerIdx rs)"
  proof -
    have "distinct (map ReaderAddr (take (Suc readerIdx) rs))"
      using Cons.prems(3) by (simp add: distinct_take take_map[symmetric] del: take_Suc)
    then show ?thesis unfolding t_rs by auto
  qed
  then have fresh: "ReaderAddr ?r \<notin> fst ` set compiled'" using Cons.prems(4) by blast
  have inner: "compileReaderList readerIdx ?r cl (ns, compiled', errs) = Inr (?ns1, ?c1, ?e1)"
    using compileReaderList_eq[OF i_ns, of ?r cl compiled' errs]
      fold_appendCompiled_fresh[OF fresh, of ?ones]
    by simp
  have p1: "Suc readerIdx + length rest = length rs" using Cons.prems(1) by simp
  have p2: "length ?ns1 = length rs" using Cons.prems(2) by simp
  have p4: "fst ` set ?c1 \<subseteq> ReaderAddr ` set (take (Suc readerIdx) rs)"
    using Cons.prems(4) unfolding t_rs by auto
  have t1: "take (Suc readerIdx) ?ns1 = take readerIdx ns @ [registeredNames ?N cl]"
    using i_ns by (simp add: take_Suc_conv_app_nth)
  have d1: "drop (Suc readerIdx) ?ns1 = drop (Suc readerIdx) ns" by simp
  have step: "compileLoop rs readerIdx (cl # rest) (ns, compiled', errs)
            = compileLoop rs (Suc readerIdx) rest (?ns1, ?c1, ?e1)"
    using i_rs inner by simp
  show ?case
    unfolding step Cons.IH[OF p1 p2 Cons.prems(3) p4] t1 d1 d_rs d_ns
    by simp
qed

lemma compileAll_eq:
  assumes "length (names v) = length (readers v)"
    and "distinct (map ReaderAddr (readers v))"
  shows "compileAll v instrument =
           Inr (map (\<lambda>(N, cs). registeredNames N cs) (zip (names v) (configure v instrument)),
                expectedCompiled v instrument,
                concat (map (\<lambda>(N, cs). duplicateErrors N cs)
                          (zip (names v) (configure v instrument))))"
proof -
  have len: "0 + length (configure v instrument) = length (readers v)"
    by (simp add: configure_def Let_def)
  show ?thesis
    unfolding compileAll_def expectedCompiled_def
    using compileLoop_eq[OF len assms(1) assms(2), of "[]" "[]"] by simp
qed

lemma Compile_eq:
  assumes "length (names v) = length (readers v)"
    and "distinct (map ReaderAddr (readers v))"
  shows "Compile v instrument =
           Inr (wrapCompiled instrument (expectedCompiled v instrument),
                v\<lparr>names := map (\<lambda>(N, cs). registeredNames N cs)
                               (zip (names v) (configure v instrument))\<rparr>,
                concat (map (\<lambda>(N, cs). duplicateErrors N cs)
                          (zip (names v) (configure v instrument))))"
  by (simp add: Compile_def compileAll_eq[OF assms])

lemma length_configure: "length (configure v instrument) = length (readers v)"
  by (simp add: configure_def Let_def)

lemma pipelinesFor_expectedCompiled:
  assumes len: "length (names v) = length (readers v)"
    and dist: "distinct (map ReaderAddr (readers v))"
    and i: "i < length (readers v)"
  shows "pipelinesFor (expectedCompiled v instrument) (ReaderAddr (readers v ! i))
       = map buildOne (firstRegistrations (names v ! i) (configure v instrument ! i))"
proof -
  define L :: "(nat \<times> 'a viewstate_Instrument list) list" where
    "L = map (\<lambda>(r, N, cs). (ReaderAddr r, map buildOne (firstRegistrations N cs)))
           (zip (readers v) (zip (names v) (configure v instrument)))"
  define k where "k = ReaderAddr (readers v ! i)"
  define ones :: "'a viewstate_Instrument list" where
    "ones = map buildOne (firstRegistrations (names v ! i) (configure v instrument ! i))"
  have lenL: "length L = length (readers v)"
    using len by (simp add: L_def length_configure)
  have keys: "map fst L = map ReaderAddr (readers v)"
    unfolding L_def using len by (intro nth_equalityI) (simp_all add: length_configure)
  have Li: "L ! i = (k, ones)"
    using i len by (simp add: L_def k_def ones_def length_configure)
  have dL: "distinct (map fst L)" using dist keys by simp
  have mem: "(k, ones) \<in> set L" using Li i lenL by (metis nth_mem)
  have uniq: "l = ones" if "(k, l) \<in> set L" for l
    using dL mem that by (metis map_of_eq_Some_iff option.inject)
  have dF: "distinct (map fst (filter (\<lambda>e. snd e \<noteq> []) L))"
    using dL by (rule distinct_map_filter)
  have ec: "expectedCompiled v instrument = filter (\<lambda>e. snd e \<noteq> []) L"
    by (simp add: expectedCompiled_def L_def)
  show ?thesis
  proof (cases "ones = []")
    case True
    have "k \<notin> fst ` set (filter (\<lambda>e. snd e \<noteq> []) L)"
    proof
      assume "k \<in> fst ` set (filter (\<lambda>e. snd e \<noteq> []) L)"
      then obtain e where e: "e \<in> set L" "snd e \<noteq> []" "fst e = k" by auto
      then have "(k, snd e) \<in> set L" by (metis prod.collapse)
      then show False using uniq True e(2) by blast
    qed
    then have "map_of (filter (\<lambda>e. snd e \<noteq> []) L) k = None" by (simp add: map_of_eq_None_iff)
    then show ?thesis using True unfolding ec by (simp add: pipelinesFor_def k_def ones_def)
  next
    case False
    then have "(k, ones) \<in> set (filter (\<lambda>e. snd e \<noteq> []) L)" using mem by simp
    then have "map_of (filter (\<lambda>e. snd e \<noteq> []) L) k = Some ones" using dF by simp
    then show ?thesis unfolding ec by (simp add: pipelinesFor_def k_def ones_def)
  qed
qed

lemma pipelineDesc_buildOne: "pipelineDesc (buildOne c) = Some (configuredBehavior.desc c)"
  by (simp add: buildOne_def buildView_def compileSync_def compileAsync_def newSyncView_def
      newAsyncView_def newBaseMetric_def Let_def baseMetric.defs
      split: number_Kind.split aggregation_Kind.split)

lemma firstRegistrations_less:
  "\<exists>c\<in>set cs. behaviorName c \<in> N \<Longrightarrow> length (firstRegistrations N cs) < length cs"
proof (induction cs arbitrary: N)
  case Nil
  then show ?case by simp
next
  case (Cons c cs)
  show ?case
  proof (cases "behaviorName c \<in> N")
    case True
    then show ?thesis
      using length_firstRegistrations[of N cs] by (simp add: firstRegistrations_Cons)
  next
    case False
    then have "\<exists>c'\<in>set cs. behaviorName c' \<in> insert (behaviorName c) N"
      using Cons.prems by auto
    from Cons.IH[OF this] False show ?thesis by (simp add: firstRegistrations_Cons)
  qed
qed

lemma configure_cong:
  "readers v' = readers v \<Longrightarrow> views v' = views v \<Longrightarrow> library v' = library v \<Longrightarrow>
   configure v' instrument = configure v instrument"
  by (simp add: configure_def)

lemma Compile_names:
  assumes "length (names v) = length (readers v)"
    and "distinct (map ReaderAddr (readers v))"
    and "Compile v instrument = Inr (compiled', v', errs)"
  shows "length (names v') = length (readers v)"
    and "readers v' = readers v" and "views v' = views v" and "library v' = library v"
    and "i < length (readers v) \<Longrightarrow>
         names v' ! i = registeredNames (names v ! i) (configure v instrument ! i)"
  using assms(3) assms(1) unfolding Compile_eq[OF assms(1) assms(2)]
  by (auto simp: length_configure)

lemma compileSeq_names:
  assumes "length (names v) = length (readers v)"
    and "distinct (map ReaderAddr (readers v))"
    and "compileSeq v ds = Inr v2"
  shows "length (names v2) = length (readers v) \<and> readers v2 = readers v \<and> views v2 = views v
       \<and> library v2 = library v \<and> (\<forall>i<length (readers v). names v ! i \<subseteq> names v2 ! i)"
  using assms
proof (induction ds arbitrary: v)
  case Nil
  then show ?case by simp
next
  case (Cons d ds)
  let ?v1 = "v\<lparr>names := map (\<lambda>(N, cs). registeredNames N cs) (zip (names v) (configure v d))\<rparr>"
  have step: "compileSeq v (d # ds) = compileSeq ?v1 ds"
    by (simp add: Compile_eq[OF Cons.prems(1) Cons.prems(2)])
  have l1: "length (names ?v1) = length (readers ?v1)"
    using Cons.prems(1) by (simp add: length_configure)
  have d1: "distinct (map ReaderAddr (readers ?v1))" using Cons.prems(2) by simp
  have s1: "compileSeq ?v1 ds = Inr v2" using Cons.prems(3) step by simp
  have grow: "names v ! i \<subseteq> names ?v1 ! i" if "i < length (readers v)" for i
    using that Cons.prems(1) by (simp add: length_configure registeredNames_def)
  from Cons.IH[OF l1 d1 s1] grow show ?case by fastforce
qed



text \<open>
  C10. The name sets live as long as the compiler. Let a behavior \<open>c1\<close> be configured for
  reader \<open>i\<close> in one \<^verbatim>\<open>Compile\<close> call, let any number of further calls follow, and let a
  later call configure for reader \<open>i\<close> a behavior \<open>c2\<close> with the name of \<open>c1\<close>, for
  whatever instrument. Then the name is still registered when the later call starts,
  that call reports a duplicate-name error, leaves the name registered, and none of the
  pipelines it builds for reader \<open>i\<close> has that name.
\<close>

theorem C10_names_persist:
  assumes "length (names v) = length (readers v)"
    and "distinct (map ReaderAddr (readers v))"
    and "Compile v d1 = Inr (inst1, v1, errs1)"
    and "compileSeq v1 ds = Inr v2"
    and "i < length (readers v)"
    and "c1 \<in> set (configure v d1 ! i)"
    and "c2 \<in> set (configure v2 d2 ! i)"
    and "behaviorName c2 = behaviorName c1"
  shows "behaviorName c1 \<in> names v2 ! i
       \<and> (\<exists>v3 errs2.
             Compile v2 d2
               = Inr (wrapCompiled d2
                        (expectedCompiled v2 d2 :: (nat \<times> 'k viewstate_Instrument list) list),
                      v3, errs2)
             \<and> ''duplicate view name registered'' \<in> set errs2
             \<and> behaviorName c1 \<in> names v3 ! i)
       \<and> (\<forall>one\<in>set (pipelinesFor
                        (expectedCompiled v2 d2 :: (nat \<times> 'k viewstate_Instrument list) list)
                        (ReaderAddr (readers v2 ! i))).
             \<exists>c. pipelineDesc one = Some (configuredBehavior.desc c)
                  \<and> behaviorName c \<noteq> behaviorName c1)"
proof -
  note n1 = Compile_names[OF assms(1) assms(2) assms(3)]
  have l1: "length (names v1) = length (readers v1)" using n1(1) n1(2) by simp
  have d1: "distinct (map ReaderAddr (readers v1))" using assms(2) n1(2) by simp
  have i1: "i < length (readers v1)" using assms(5) n1(2) by simp
  have "behaviorName c1 \<in> names v1 ! i"
    using n1(5)[OF assms(5)] assms(6) by (simp add: registeredNames_def)
  moreover note s = compileSeq_names[OF l1 d1 assms(4)]
  ultimately have reg: "behaviorName c1 \<in> names v2 ! i" using i1 by blast
  have l2: "length (names v2) = length (readers v2)" using s by simp
  have d2: "distinct (map ReaderAddr (readers v2))" using s d1 by simp
  have i2: "i < length (readers v2)" using s i1 by simp
  let ?cs = "configure v2 d2 ! i"
  let ?N = "names v2 ! i"
  let ?v3 = "v2\<lparr>names := map (\<lambda>(N, cs). registeredNames N cs) (zip (names v2) (configure v2 d2))\<rparr>"
  let ?errs = "concat (map (\<lambda>(N, cs). duplicateErrors N cs) (zip (names v2) (configure v2 d2)))"
  have "behaviorName c2 \<in> ?N" using assms(8) reg by simp
  then have "\<exists>c\<in>set ?cs. behaviorName c \<in> ?N" using assms(7) by blast
  then have "length (firstRegistrations ?N ?cs) < length ?cs"
    by (rule firstRegistrations_less)
  then have "''duplicate view name registered'' \<in> set (duplicateErrors ?N ?cs)"
    by (simp add: duplicateErrors_def)
  moreover have "(?N, ?cs) \<in> set (zip (names v2) (configure v2 d2))"
    using i2 l2 by (simp add: in_set_zip length_configure) blast
  ultimately have err: "''duplicate view name registered'' \<in> set ?errs" by force
  have reg3: "behaviorName c1 \<in> names ?v3 ! i"
    using reg i2 l2 by (simp add: length_configure registeredNames_def)
  have pipes: "\<exists>c. pipelineDesc one = Some (configuredBehavior.desc c) \<and> behaviorName c \<noteq> behaviorName c1"
    if "one \<in> set (pipelinesFor (expectedCompiled v2 d2) (ReaderAddr (readers v2 ! i)))"
    for one :: "'k viewstate_Instrument"
  proof -
    from that obtain c where c: "c \<in> set (firstRegistrations ?N ?cs)" and one: "one = buildOne c"
      unfolding pipelinesFor_expectedCompiled[OF l2 d2 i2] by auto
    have "behaviorName c \<notin> ?N" using c by (rule firstRegistrations_names)
    then have "behaviorName c \<noteq> behaviorName c1" using reg by auto
    then show ?thesis using one pipelineDesc_buildOne by blast
  qed
  from Compile_eq[OF l2 d2, of d2] err reg3
  have "\<exists>v3 errs2.
             Compile v2 d2
               = Inr (wrapCompiled d2
                        (expectedCompiled v2 d2 :: (nat \<times> 'k viewstate_Instrument list) list),
                      v3, errs2)
             \<and> ''duplicate view name registered'' \<in> set errs2
             \<and> behaviorName c1 \<in> names v3 ! i"
    by blast
  with reg pipes show ?thesis by blast
qed

text \<open>
  One reader, no view. The counter \<open>requests\<close> is compiled first, then the counter
  \<open>other\<close>, then an up-down counter that is also named \<open>requests\<close>: its only behavior is
  refused as a duplicate, \<^verbatim>\<open>Compile\<close> returns nil and the names are left as they were.
\<close>

theorem C10_names_persist_witness:
  "length (names (New exampleLibrary [] [sumReader]))
     = length (readers (New exampleLibrary [] [sumReader]))
   \<and> distinct (map ReaderAddr (readers (New exampleLibrary [] [sumReader])))
   \<and> Compile (New exampleLibrary [] [sumReader]) (int64Instrument ''requests'' CounterKind)
      = Inr (Some (StatefulSyncProcess Int64Kind sum_State
                     \<lparr>desc = int64Instrument ''requests'' CounterKind,
                      acfg = \<lparr>Histogram = ZeroConfig\<rparr>,
                      data = (Map.empty :: attribute_KeyValue list \<rightharpoonup> addr), keys = None\<rparr>),
             (New exampleLibrary [] [sumReader])\<lparr>names := [{''requests''}]\<rparr>, [])
   \<and> compileSeq ((New exampleLibrary [] [sumReader])\<lparr>names := [{''requests''}]\<rparr>)
        [int64Instrument ''other'' CounterKind]
      = Inr ((New exampleLibrary [] [sumReader])\<lparr>names := [{''requests'', ''other''}]\<rparr>)
   \<and> (0::nat) < length (readers (New exampleLibrary [] [sumReader]))
   \<and> \<lparr>configuredBehavior.desc = int64Instrument ''requests'' CounterKind, kind = SumKind,
       keys = None, acfg = \<lparr>Histogram = ZeroConfig\<rparr>, reader = sumReader\<rparr>
       \<in> set (configure (New exampleLibrary [] [sumReader])
                 (int64Instrument ''requests'' CounterKind) ! 0)
   \<and> \<lparr>configuredBehavior.desc = int64Instrument ''requests'' UpDownCounterKind, kind = SumKind,
       keys = None, acfg = \<lparr>Histogram = ZeroConfig\<rparr>, reader = sumReader\<rparr>
       \<in> set (configure ((New exampleLibrary [] [sumReader])\<lparr>names := [{''requests'', ''other''}]\<rparr>)
                 (int64Instrument ''requests'' UpDownCounterKind) ! 0)
   \<and> behaviorName
        \<lparr>configuredBehavior.desc = int64Instrument ''requests'' UpDownCounterKind, kind = SumKind,
         keys = None, acfg = \<lparr>Histogram = ZeroConfig\<rparr>, reader = sumReader\<rparr>
      = behaviorName
          \<lparr>configuredBehavior.desc = int64Instrument ''requests'' CounterKind, kind = SumKind,
           keys = None, acfg = \<lparr>Histogram = ZeroConfig\<rparr>, reader = sumReader\<rparr>
   \<and> behaviorName
        \<lparr>configuredBehavior.desc = int64Instrument ''requests'' CounterKind, kind = SumKind,
         keys = None, acfg = \<lparr>Histogram = ZeroConfig\<rparr>, reader = sumReader\<rparr>
      \<in> names ((New exampleLibrary [] [sumReader])\<lparr>names := [{''requests'', ''other''}]\<rparr>) ! 0
   \<and> (\<exists>v3 errs2.
         Compile ((New exampleLibrary [] [sumReader])\<lparr>names := [{''requests'', ''other''}]\<rparr>)
           (int64Instrument ''requests'' UpDownCounterKind)
         = Inr (wrapCompiled (int64Instrument ''requests'' UpDownCounterKind)
                  (expectedCompiled
                     ((New exampleLibrary [] [sumReader])\<lparr>names := [{''requests'', ''other''}]\<rparr>)
                     (int64Instrument ''requests'' UpDownCounterKind)
                   :: (nat \<times> attribute_KeyValue list viewstate_Instrument list) list),
                v3, errs2)
         \<and> ''duplicate view name registered'' \<in> set errs2
         \<and> ''requests'' \<in> names v3 ! 0)
   \<and> Compile ((New exampleLibrary [] [sumReader])\<lparr>names := [{''requests'', ''other''}]\<rparr>)
        (int64Instrument ''requests'' UpDownCounterKind)
      = Inr (None :: attribute_KeyValue list viewstate_Instrument option,
             (New exampleLibrary [] [sumReader])\<lparr>names := [{''requests'', ''other''}]\<rparr>,
             [''duplicate view name registered''])"
proof -
  let ?V = "New exampleLibrary [] [sumReader]"
  let ?d1 = "int64Instrument ''requests'' CounterKind"
  let ?d2 = "int64Instrument ''requests'' UpDownCounterKind"
  let ?c1 = "\<lparr>configuredBehavior.desc = ?d1, kind = SumKind, keys = None,
              acfg = \<lparr>Histogram = ZeroConfig\<rparr>, reader = sumReader\<rparr>"
  let ?c2 = "\<lparr>configuredBehavior.desc = ?d2, kind = SumKind, keys = None,
              acfg = \<lparr>Histogram = ZeroConfig\<rparr>, reader = sumReader\<rparr>"
  let ?v1 = "?V\<lparr>names := [{''requests''}]\<rparr>"
  let ?v2 = "?V\<lparr>names := [{''requests'', ''other''}]\<rparr>"
  let ?inst1 = "Some (StatefulSyncProcess Int64Kind sum_State
                     \<lparr>desc = ?d1, acfg = \<lparr>Histogram = ZeroConfig\<rparr>,
                      data = (Map.empty :: attribute_KeyValue list \<rightharpoonup> addr), keys = None\<rparr>)"
  note ev = Compile_def compileAll_def configure_def New_def configureReader_def
    aggregatorConfigFor_def wrapCompiled_def appendCompiled_def buildOne_def buildView_def
    compileSync_def newSyncView_def newBaseMetric_def int64Instrument_def sumReader_def
  have h1: "length (names ?V) = length (readers ?V)" by (simp add: New_def)
  have h2: "distinct (map ReaderAddr (readers ?V))" by (simp add: New_def)
  have h3: "Compile ?V ?d1 = Inr (?inst1, ?v1, [])" by (simp add: ev)
  have h4: "compileSeq ?v1 [int64Instrument ''other'' CounterKind] = Inr ?v2"
    by (simp add: ev insert_commute)
  have h5: "(0::nat) < length (readers ?V)" by (simp add: New_def)
  have h6: "?c1 \<in> set (configure ?V ?d1 ! 0)"
    by (simp add: configure_def New_def configureReader_def aggregatorConfigFor_def sumReader_def)
  have h7: "?c2 \<in> set (configure ?v2 ?d2 ! 0)"
    by (simp add: configure_def New_def configureReader_def aggregatorConfigFor_def sumReader_def)
  have h8: "behaviorName ?c2 = behaviorName ?c1"
    by (simp add: behaviorName_def int64Instrument_def)
  have bn: "behaviorName ?c1 = ''requests''" by (simp add: behaviorName_def int64Instrument_def)
  note c10 = C10_names_persist[where 'k="attribute_KeyValue list", OF h1 h2 h3 h4 h5 h6 h7 h8]
  have a: "behaviorName ?c1 \<in> names ?v2 ! 0" using c10 by blast
  have b: "\<exists>v3 errs2.
         Compile ?v2 ?d2
         = Inr (wrapCompiled ?d2
                  (expectedCompiled ?v2 ?d2
                   :: (nat \<times> attribute_KeyValue list viewstate_Instrument list) list),
                v3, errs2)
         \<and> ''duplicate view name registered'' \<in> set errs2
         \<and> ''requests'' \<in> names v3 ! 0"
    using c10 unfolding bn by blast
  have c: "Compile ?v2 ?d2
      = Inr (None :: attribute_KeyValue list viewstate_Instrument option, ?v2,
             [''duplicate view name registered''])"
    by (simp add: ev)
  from h1 h2 h3 h4 h5 h6 h7 h8 a b c show ?thesis by blast
qed

section \<open>What a delta collection emits, and the invariants of the store\<close>

text \<open>
  For any kernel, the series a delta collection of a synchronous instrument emits for
  an attribute set with data reports what \<open>Merge\<close> leaves in its first argument when
  called on fresh storage and the cell. When \<open>Merge\<close> writes its second argument only,
  as \<^verbatim>\<open>Accumulate\<close> needs it to, that is the \<open>Init\<close> state. The well-formedness that the
  theorems on \<^verbatim>\<open>Collect\<close> assume holds of an empty pipeline and is kept by
  \<^verbatim>\<open>findOutput\<close> and by every \<^verbatim>\<open>Collect\<close>.
\<close>

lemma statelessSync_range_series:
  assumes "distinct ks" and "distinctStorage (data p)" and "allocated (data p) h"
  shows "\<exists>ss. fst (snd (statelessSync_range m seq ks (p, out @ [i], h)))
               = out @ [i\<lparr>Series := Series i @ ss\<rparr>]
            \<and> map (seriesView (snd (snd (statelessSync_range m seq ks (p, out @ [i], h))))) ss
               = concat (map (\<lambda>k. case withData m h (data p) k of
                                      None \<Rightarrow> []
                                    | Some a \<Rightarrow> [(k, fst (Merge m (Init m (acfg p)) (cell h a)),
                                                 Last seq, Now seq)]) ks)"
  using assms
proof (induction ks arbitrary: p i h)
  case Nil
  show ?case by simp
next
  case (Cons k ks)
  have dks: "distinct ks" and kks: "k \<notin> set ks" using Cons.prems(1) by auto
  note ds = Cons.prems(2) and al = Cons.prems(3)
  let ?e = "\<lambda>p h k. case withData m h (data p) k of
                       None \<Rightarrow> []
                     | Some a \<Rightarrow> [(k, fst (Merge m (Init m (acfg p)) (cell h a)), Last seq, Now seq)]"
  show ?case
  proof (cases "withData m h (data p) k")
    case None
    then have cases: "data p k = None \<or> (\<exists>a. data p k = Some a \<and> \<not> HasData m (cell h a))"
      by (auto simp: withData_def split: option.splits if_splits)
    let ?p1 = "p\<lparr>data := (data p)(k := None)\<rparr>"
    have step: "statelessSync_range m seq (k # ks) (p, out @ [i], h)
              = statelessSync_range m seq ks (?p1, out @ [i], h)"
    proof -
      have "data p k = None \<Longrightarrow> ?p1 = p" by (simp add: fun_upd_idem)
      then show ?thesis using cases by auto
    qed
    have ds1: "distinctStorage (data ?p1)" using ds by (simp add: distinctStorage_delete)
    have al1: "allocated (data ?p1) h" using al by (simp add: allocated_delete)
    have same: "map (?e ?p1 h) ks = map (?e p h) ks"
      using kks by (intro map_cong) (auto simp: withData_def split: option.splits)
    from Cons.IH[OF dks ds1 al1, of i] show ?thesis
      unfolding step same using None by simp
  next
    case (Some a)
    then have dk: "data p k = Some a" and hd: "HasData m (cell h a)"
      by (auto simp: withData_def split: option.splits if_splits)
    have a_lt: "a < nextAddr h" using al dk by (simp add: allocated_def)
    let ?ns = "nextAddr h"
    let ?r = "Merge m (Init m (acfg p)) (cell h a)"
    let ?h3 = "\<lparr>cell = (cell h)(?ns := fst ?r, a := Reset m (snd ?r)), nextAddr = Suc ?ns\<rparr>"
    let ?s = "\<lparr>Attributes = k, Aggregation = ?ns, StartTime = Last seq, EndTime = Now seq\<rparr>"
    let ?i1 = "i\<lparr>Series := Series i @ [?s]\<rparr>"
    let ?R = "statelessSync_range m seq ks (p, out @ [?i1], ?h3)"
    have h3: "call1 (Reset m) a (call2 (Merge m) ?ns a (snd (newStorage m p h))) = ?h3"
      using a_lt by (simp add: call1_def call2_def newStorage_def alloc_def Let_def fun_upd_twist)
    have step: "statelessSync_range m seq (k # ks) (p, out @ [i], h) = ?R"
      using dk hd h3 by (simp add: Let_def newStorage_def alloc_def appendSeries_last)
    have al3: "allocated (data p) ?h3" using al by (rule allocated_mono) simp
    have same: "map (?e p ?h3) ks = map (?e p h) ks"
    proof (intro map_cong refl)
      fix k' assume k': "k' \<in> set ks"
      show "?e p ?h3 k' = ?e p h k'"
      proof (cases "data p k'")
        case None
        then show ?thesis by (simp add: withData_def)
      next
        case (Some a')
        have "a' \<noteq> a" using ds dk Some k' kks unfolding distinctStorage_def by blast
        moreover have "a' < ?ns" using al Some by (simp add: allocated_def)
        ultimately have "cell ?h3 a' = cell h a'" by simp
        then show ?thesis using Some by (simp add: withData_def)
      qed
    qed
    obtain ss where ss: "fst (snd ?R) = out @ [?i1\<lparr>Series := Series ?i1 @ ss\<rparr>]"
      "map (seriesView (snd (snd ?R))) ss = concat (map (?e p ?h3) ks)"
      using Cons.IH[OF dks ds al3, of ?i1] by blast
    have nons: "\<forall>k'\<in>set ks. data p k' \<noteq> Some ?ns"
      using al by (auto simp: allocated_def)
    have eff3: "\<forall>a'<nextAddr ?h3. cell (snd (snd ?R)) a' =
            (if (\<exists>k'\<in>set ks. data p k' = Some a' \<and> HasData m (cell ?h3 a'))
             then Reset m (snd (Merge m (Init m (acfg p)) (cell ?h3 a')))
             else cell ?h3 a')"
      using statelessSync_range_effect[OF dks ds al3, of m seq "out @ [?i1]"] by blast
    have "?ns < nextAddr ?h3" by simp
    with eff3 have "cell (snd (snd ?R)) ?ns =
            (if (\<exists>k'\<in>set ks. data p k' = Some ?ns \<and> HasData m (cell ?h3 ?ns))
             then Reset m (snd (Merge m (Init m (acfg p)) (cell ?h3 ?ns)))
             else cell ?h3 ?ns)"
      by blast
    also have "\<dots> = cell ?h3 ?ns" using nons by auto
    also have "\<dots> = fst ?r" using a_lt by simp
    finally have keep: "cell (snd (snd ?R)) ?ns = fst ?r" .
    have "fst (snd ?R) = out @ [i\<lparr>Series := Series i @ (?s # ss)\<rparr>]" using ss(1) by simp
    moreover have "map (seriesView (snd (snd ?R))) (?s # ss) = concat (map (?e p h) (k # ks))"
      using ss(2) keep Some unfolding same by (simp add: seriesView_def)
    ultimately show ?thesis unfolding step by blast
  qed
qed


lemma statelessSyncProcess_Collect_series:
  assumes "rangeOrder order (data p)"
    and "distinctStorage (data p)"
    and "allocated (data p) h"
  shows "\<exists>ss. fst (snd (statelessSyncProcess_Collect m order p seq out h))
               = out @ [\<lparr>Instrument = desc p, Temporality = DeltaTemporality, Series = ss\<rparr>]
            \<and> map (seriesView (snd (snd (statelessSyncProcess_Collect m order p seq out h)))) ss
               = concat (map (\<lambda>k. case withData m h (data p) k of
                                      None \<Rightarrow> []
                                    | Some a \<Rightarrow> [(k, fst (Merge m (Init m (acfg p)) (cell h a)),
                                                 Last seq, Now seq)]) order)"
proof -
  let ?i = "\<lparr>Instrument = desc p, Temporality = DeltaTemporality, Series = []\<rparr>"
  have dist: "distinct order" using assms(1) by (simp add: rangeOrder_def)
  from statelessSync_range_series[OF dist assms(2) assms(3), of m seq out ?i]
  show ?thesis by (simp add: statelessSyncProcess_Collect_def)
qed

lemma statelessSyncProcess_Collect_emits_Init:
  assumes "rangeOrder order (data p)"
    and "distinctStorage (data p)"
    and "allocated (data p) h"
    and "keepsOperand (Merge m)"
  shows "\<exists>ss. fst (snd (statelessSyncProcess_Collect m order p seq out h))
               = out @ [\<lparr>Instrument = desc p, Temporality = DeltaTemporality, Series = ss\<rparr>]
            \<and> (\<forall>s\<in>set ss. cell (snd (snd (statelessSyncProcess_Collect m order p seq out h)))
                               (Aggregation s) = Init m (acfg p))"
proof -
  let ?h' = "snd (snd (statelessSyncProcess_Collect m order p seq out h))"
  let ?e = "\<lambda>k. case withData m h (data p) k of
                  None \<Rightarrow> []
                | Some a \<Rightarrow> [(k, fst (Merge m (Init m (acfg p)) (cell h a)), Last seq, Now seq)]"
  obtain ss where ss:
    "fst (snd (statelessSyncProcess_Collect m order p seq out h))
       = out @ [\<lparr>Instrument = desc p, Temporality = DeltaTemporality, Series = ss\<rparr>]"
    "map (seriesView ?h') ss = concat (map ?e order)"
    using statelessSyncProcess_Collect_series[OF assms(1) assms(2) assms(3)] by blast
  have "fst (snd v) = Init m (acfg p)" if "v \<in> set (concat (map ?e order))" for v
    using that assms(4) by (auto simp: keepsOperand_def split: option.splits)
  then have "\<forall>s\<in>set ss. fst (snd (seriesView ?h' s)) = Init m (acfg p)"
    unfolding ss(2)[symmetric] by simp
  then have "\<forall>s\<in>set ss. cell ?h' (Aggregation s) = Init m (acfg p)"
    by (simp add: seriesView_def)
  with ss(1) show ?thesis by blast
qed

lemma statelessSyncProcess_Collect_wellformed:
  assumes "rangeOrder order (data p)"
    and "distinctStorage (data p)"
    and "allocated (data p) h"
  shows "distinctStorage (data (fst (statelessSyncProcess_Collect m order p seq out h)))
       \<and> allocated (data (fst (statelessSyncProcess_Collect m order p seq out h)))
           (snd (snd (statelessSyncProcess_Collect m order p seq out h)))"
proof -
  let ?out = "out @ [\<lparr>Instrument = desc p, Temporality = DeltaTemporality, Series = []\<rparr>]"
  have dist: "distinct order" using assms(1) by (simp add: rangeOrder_def)
  note eff = statelessSync_range_effect[OF dist assms(2) assms(3), of m seq ?out]
  have sub: "data (fst (statelessSyncProcess_Collect m order p seq out h)) k = Some a
             \<Longrightarrow> data p k = Some a" for k a
    using eff unfolding statelessSyncProcess_Collect_def
    by (auto simp: withData_def split: if_splits option.splits)
  have "distinctStorage (data (fst (statelessSyncProcess_Collect m order p seq out h)))"
    using assms(2) sub unfolding distinctStorage_def by blast
  moreover have "allocated (data (fst (statelessSyncProcess_Collect m order p seq out h)))
           (snd (snd (statelessSyncProcess_Collect m order p seq out h)))"
    using assms(3) sub eff unfolding allocated_def statelessSyncProcess_Collect_def
    by (meson less_le_trans)
  ultimately show ?thesis by blast
qed

lemma wellformed_empty:
  "distinctStorage Map.empty" "allocated Map.empty h" "disjointStorage Map.empty m'"
  by (simp_all add: distinctStorage_def allocated_def disjointStorage_def)

lemma statefulAsyncProcess_Collect_wellformed:
  assumes "keepsOperand (SubtractSwap m)"
    and "distinctStorage (data p)"
    and "allocated (data p) h"
  shows "disjointStorage (data (fst (statefulAsyncProcess_Collect m order p seq out h)))
           (prior (fst (statefulAsyncProcess_Collect m order p seq out h)))
       \<and> distinctStorage (prior (fst (statefulAsyncProcess_Collect m order p seq out h)))
       \<and> allocated (prior (fst (statefulAsyncProcess_Collect m order p seq out h)))
           (snd (snd (statefulAsyncProcess_Collect m order p seq out h)))"
proof -
  let ?out = "out @ [\<lparr>Instrument = desc p, Temporality = DeltaTemporality, Series = []\<rparr>]"
  have "nextAddr (snd (statefulAsync_range m seq p order (?out, h))) = nextAddr h"
    using statefulAsync_range_frame[OF assms(1), where seq=seq and p=p and ks=order
        and out="?out" and h=h]
    by blast
  then show ?thesis
    using assms(2) assms(3)
    by (simp add: statefulAsyncProcess_Collect_def Let_def disjointStorage_def allocated_def)
qed

lemma findOutput_disjoint:
  fixes p :: "'k statefulAsyncProcess"
  assumes "disjointStorage (data p) (prior p)" and "allocated (prior p) h"
  shows "disjointStorage (data (fst (snd (findOutput m mk p kvs h))))
           (prior (fst (snd (findOutput m mk p kvs h))))
       \<and> allocated (prior (fst (snd (findOutput m mk p kvs h)))) (snd (snd (findOutput m mk p kvs h)))"
proof (cases "data p (mk kvs (keys p))")
  case None
  have "\<And>k a. prior p k = Some a \<Longrightarrow> a < nextAddr h" using assms(2) by (simp add: allocated_def)
  then show ?thesis
    using None assms(1)
    by (auto simp: findOutput_def newStorage_def alloc_def Let_def disjointStorage_def
        allocated_def less_Suc_eq)
next
  case (Some a)
  then show ?thesis using assms by (simp add: findOutput_def Let_def)
qed

text \<open>
  The same updates with a sum kernel whose \<open>Merge\<close> folds its second argument into its
  first: \<^verbatim>\<open>Accumulate\<close> then leaves the cell empty, and the collection emits no series
  and deletes the entry.
\<close>

lemma delta_scenario_with_Merge_reversed:
  "(let methods = sum_Methods\<lparr>Merge := (\<lambda>dst src. (dst + src, src))\<rparr>;
        attrs = [(''a'', ''1'')];
        p1 = \<lparr>desc = int64Instrument ''requests'' CounterKind, acfg = \<lparr>Histogram = ZeroConfig\<rparr>,
              data = [attrs \<mapsto> 0], keys = None\<rparr>;
        sc = \<lparr>syncAccumulator.current = 12, snapshot = 0, output = 0\<rparr>;
        acc1 = syncAccumulator_Accumulate methods sc \<lparr>cell = (\<lambda>a. 0), nextAddr = 1\<rparr>;
        col1 = statelessSyncProcess_Collect methods [attrs] p1
                 \<lparr>Start = 0, Last = 0, Now = 1\<rparr> [] (snd acc1)
    in (cell (snd acc1) 0, observedSeries (snd (snd col1)) (fst (snd col1)), data (fst col1) attrs))
   = (0, [[]], None)"
  by (simp add: Let_def sum_Methods_def syncAccumulator_Accumulate_def
      statelessSyncProcess_Collect_def observedSeries_def)

end
